theory Spec2Isabelle
  imports Main "HOL-Library.Multiset"
begin

section \<open>Radar administration forms: data shapes\<close>

text \<open>
  The TypeScript type declarations of the repository (\<^verbatim>\<open>services/radars/types\<close>,
  \<^verbatim>\<open>components/radars/form/types\<close>, \<^verbatim>\<open>components/radars/form/item/types\<close>) are not among
  the sources. The records below follow the data model of the specification (section 3)
  and the way the components use the values. Record fields carry a prefix, since a field
  name is a constant of the theory: \<open>r_id\<close> is the field \<^verbatim>\<open>id\<close> of a \<^verbatim>\<open>Radar\<close>, and so on.
  Identifiers and names are strings.
\<close>

text \<open>
  Modelled from the spec: the type \<^verbatim>\<open>Radar\<close> of \<^verbatim>\<open>services/radars/types\<close>,
  \<^verbatim>\<open>{id, name, rings: string[], quadrants: string[]}\<close>. The form reads \<^verbatim>\<open>r.id\<close>,
  \<^verbatim>\<open>r.name\<close>, \<^verbatim>\<open>radar.rings\<close> and \<^verbatim>\<open>r.quadrants\<close>.
\<close>

record radar =
  r_id :: string
  r_name :: string
  r_rings :: "string list"
  r_quadrants :: "string list"

text \<open>
  Modelled from the spec: one entry \<^verbatim>\<open>{id, quadrant}\<close> of the flat list \<^verbatim>\<open>item.radars\<close> of
  the wire shape, as the second \<^verbatim>\<open>reduce\<close> of the effect destructures it.
\<close>

record item_radar =
  ir_id :: string
  ir_quadrant :: string

text \<open>Modelled from the spec: the tri-state probation result of the wire shape.\<close>

datatype probation_result = Passed | Failed | Absent

text \<open>
  Modelled from the spec: the type \<^verbatim>\<open>RadarItem\<close> of \<^verbatim>\<open>services/radars/types\<close>,
  \<^verbatim>\<open>{id, name, description, ring, ru, probation_result, radars}\<close>, the wire shape returned
  by \<^verbatim>\<open>getRadarItem\<close>. The ring may be absent.
\<close>

record radar_item =
  ri_id :: string
  ri_name :: string
  ri_description :: string
  ri_ring :: "string option"
  ri_ru :: bool
  ri_probation_result :: probation_result
  ri_radars :: "item_radar list"

text \<open>
  Modelled from the spec: the type \<^verbatim>\<open>SelectItem\<close> of
  \<^verbatim>\<open>components/ui/form/SelectField/types\<close>, the option \<^verbatim>\<open>{id, label}\<close> of the selection
  widgets.
\<close>

record select_item =
  si_id :: string
  si_label :: string

text \<open>
  One row of the field array \<^verbatim>\<open>radars\<close> of the item form, with the properties that the
  form writes: \<^verbatim>\<open>{radarId, label, quadrants}\<close> (lines 102 to 106, 129 to 131 and 239). The
  label is whatever the expression \<^verbatim>\<open>radarsMap[radarId].name\<close> evaluates to, which
  JavaScript allows to be \<^verbatim>\<open>undefined\<close>: \<open>None\<close> stands for \<^verbatim>\<open>undefined\<close>.
\<close>

record form_radar =
  fr_radarId :: string
  fr_label :: "string option"
  fr_quadrants :: "select_item list"

text \<open>\<^verbatim>\<open>FormField = {value: string}\<close>, one entry of the ring and quadrant editors.\<close>

record form_field =
  ff_value :: string

section \<open>Ring and quadrant editors (\<^verbatim>\<open>form/utils.ts\<close>, \<^verbatim>\<open>RingFields.tsx\<close>, \<^verbatim>\<open>QuadrantFields.tsx\<close>)\<close>

definition MAX_RINGS :: nat where
  "MAX_RINGS = 4"

definition MAX_QUADRANTS :: nat where
  "MAX_QUADRANTS = 4"

text \<open>\<^verbatim>\<open>fields.map((field) => ({ value: field }))\<close>\<close>

definition formatFieldsToObjects :: "string list \<Rightarrow> form_field list" where
  "formatFieldsToObjects fs = map (\<lambda>field. \<lparr>ff_value = field\<rparr>) fs"

text \<open>\<^verbatim>\<open>fields.map(({ value }) => value)\<close>\<close>

definition formatFieldsToArray :: "form_field list \<Rightarrow> string list" where
  "formatFieldsToArray fs = map (\<lambda>f. ff_value f) fs"

text \<open>
  The append buttons of the two editors: \<^verbatim>\<open>disabled={fields.length >= MAX_RINGS}\<close> and
  \<^verbatim>\<open>disabled={fields.length >= MAX_QUADRANTS}\<close>, with
  \<^verbatim>\<open>onClick={() => append({ value: '' })}\<close>. A disabled button does not run its handler.
\<close>

definition ringAppendDisabled :: "form_field list \<Rightarrow> bool" where
  "ringAppendDisabled fs = (length fs \<ge> MAX_RINGS)"

definition quadrantAppendDisabled :: "form_field list \<Rightarrow> bool" where
  "quadrantAppendDisabled fs = (length fs \<ge> MAX_QUADRANTS)"

definition clickAppendRing :: "form_field list \<Rightarrow> form_field list" where
  "clickAppendRing fs =
     (if ringAppendDisabled fs then fs else fs @ [\<lparr>ff_value = ''''\<rparr>])"

definition clickAppendQuadrant :: "form_field list \<Rightarrow> form_field list" where
  "clickAppendQuadrant fs =
     (if quadrantAppendDisabled fs then fs else fs @ [\<lparr>ff_value = ''''\<rparr>])"

section \<open>Plain JavaScript objects used as dictionaries\<close>

text \<open>
  Both maps of the item form are object literals \<^verbatim>\<open>{}\<close> indexed by radar id. Three facts of
  the language decide what the form does with them:
  \<^item> an own property keeps the position of its creation, and assigning to an existing
    key does not move it;
  \<^item> \<^verbatim>\<open>Object.keys\<close> lists the own keys that are array indices first, in ascending
    numeric order, and the other keys after them in creation order (an array index is a
    canonical decimal numeral: no sign, no leading zero, at most \<open>2^32 - 2\<close>);
  \<^item> a read \<^verbatim>\<open>obj[k]\<close> of a key that is not an own property continues in
    \<^verbatim>\<open>Object.prototype\<close>, so that \<^verbatim>\<open>({})['constructor']\<close> is a function and not
    \<^verbatim>\<open>undefined\<close>.
  An object is the list of its own properties in creation order.
\<close>

type_synonym 'v js_object = "(string \<times> 'v) list"

text \<open>\<^verbatim>\<open>obj[k] = v\<close> for a key that is stored as an own data property.\<close>

fun objSet :: "'v js_object \<Rightarrow> string \<Rightarrow> 'v \<Rightarrow> 'v js_object" where
  "objSet [] k v = [(k, v)]"
| "objSet ((k', v') # ps) k v = (if k' = k then (k, v) # ps else (k', v') # objSet ps k v)"

definition isDigit :: "char \<Rightarrow> bool" where
  "isDigit c = (c \<in> set ''0123456789'')"

definition digitValue :: "char \<Rightarrow> nat" where
  "digitValue c = of_char c - 48"

definition decimalValue :: "string \<Rightarrow> nat" where
  "decimalValue s = foldl (\<lambda>n c. 10 * n + digitValue c) 0 s"

text \<open>The numeric value of a key that is an array index, \<open>None\<close> for every other key.\<close>

definition arrayIndex :: "string \<Rightarrow> nat option" where
  "arrayIndex s =
     (if s \<noteq> [] \<and> list_all isDigit s \<and> (hd s \<noteq> CHR ''0'' \<or> s = ''0'')
         \<and> decimalValue s \<le> 4294967294
      then Some (decimalValue s) else None)"

text \<open>
  The order in which the own keys of an object are listed, given the keys in creation
  order: array indices ascending, then the other keys as created.
\<close>

definition ownKeyOrder :: "string list \<Rightarrow> string list" where
  "ownKeyOrder ks =
     map snd (sort_key fst
               (List.map_filter (\<lambda>k. map_option (\<lambda>n. (n, k)) (arrayIndex k)) ks))
     @ filter (\<lambda>k. arrayIndex k = None) ks"

text \<open>\<^verbatim>\<open>Object.keys(obj)\<close>\<close>

definition objectKeys :: "'v js_object \<Rightarrow> string list" where
  "objectKeys obj = ownKeyOrder (map fst obj)"

text \<open>The properties every object literal inherits from \<^verbatim>\<open>Object.prototype\<close>.\<close>

definition objectPrototypeMethods :: "string list" where
  "objectPrototypeMethods =
     [''__defineGetter__'', ''__defineSetter__'', ''hasOwnProperty'', ''__lookupGetter__'',
      ''__lookupSetter__'', ''isPrototypeOf'', ''propertyIsEnumerable'', ''toString'',
      ''valueOf'', ''toLocaleString'']"

definition inheritedKeys :: "string list" where
  "inheritedKeys = ''constructor'' # ''__proto__'' # objectPrototypeMethods"

text \<open>
  A read \<^verbatim>\<open>obj[k]\<close> on an object literal whose prototype is \<^verbatim>\<open>Object.prototype\<close>: the own
  property, or an inherited value (a function, or \<^verbatim>\<open>Object.prototype\<close> itself for
  \<^verbatim>\<open>__proto__\<close>), or \<^verbatim>\<open>undefined\<close>.
\<close>

datatype 'v property = Own 'v | Inherited | Missing

definition objGet :: "'v js_object \<Rightarrow> string \<Rightarrow> 'v property" where
  "objGet obj k =
     (case map_of obj k of
        Some v \<Rightarrow> Own v
      | None \<Rightarrow> if k \<in> set inheritedKeys then Inherited else Missing)"

text \<open>
  The only exception the modelled code can raise: a property read on \<^verbatim>\<open>undefined\<close>,
  \<^verbatim>\<open>TypeError: Cannot read properties of undefined (reading 'p')\<close>, with \<open>p\<close> as argument.
\<close>

datatype error = TypeError string

section \<open>Option formatters\<close>

text \<open>
  \<^verbatim>\<open>RadarItemForm.tsx\<close> imports \<^verbatim>\<open>formatSelectItem\<close>, \<^verbatim>\<open>formatSelectData\<close> and
  \<^verbatim>\<open>formatProbationResult\<close> from \<^verbatim>\<open>components/radars/form/utils\<close>, and the file of that
  name among the sources does not define them. They follow section 4.1 of the
  specification.
\<close>

text \<open>
  Modelled from the spec: \<^verbatim>\<open>formatSelectItem(value)\<close> wraps a bare value as
  \<^verbatim>\<open>{id: value, label: value}\<close> and returns a neutral empty option for an absent value.
  The specification does not say which option is the neutral one; the option with empty
  id and label is taken.
\<close>

definition formatSelectItem :: "string option \<Rightarrow> select_item" where
  "formatSelectItem v =
     (case v of
        Some x \<Rightarrow> \<lparr>si_id = x, si_label = x\<rparr>
      | None \<Rightarrow> \<lparr>si_id = [], si_label = []\<rparr>)"

text \<open>
  Modelled from the spec: \<^verbatim>\<open>formatSelectData(values)\<close> maps a sequence of raw values to
  options in input order; an empty or absent input gives the empty sequence.
\<close>

definition formatSelectData :: "string list option \<Rightarrow> select_item list" where
  "formatSelectData vs =
     (case vs of
        Some xs \<Rightarrow> map (\<lambda>x. formatSelectItem (Some x)) xs
      | None \<Rightarrow> [])"

text \<open>
  Modelled from the spec: \<^verbatim>\<open>formatProbationResult\<close> is total on the three states and
  collapses them to the boolean of the switch; the absent state gives false.
\<close>

definition formatProbationResult :: "probation_result \<Rightarrow> bool" where
  "formatProbationResult t = (case t of Passed \<Rightarrow> True | Failed \<Rightarrow> False | Absent \<Rightarrow> False)"

text \<open>
  Modelled from the spec: \<^verbatim>\<open>formatItemRadar\<close> of \<^verbatim>\<open>components/radars/form/item/utils\<close>
  is not among the sources. The specification gives its result as the form association
  row \<^verbatim>\<open>{radarId, label, quadrants}\<close> of its argument.
\<close>

definition formatItemRadar :: "form_radar \<Rightarrow> form_radar" where
  "formatItemRadar row = row"

section \<open>The item form (\<^verbatim>\<open>RadarItemForm.tsx\<close>)\<close>

subsection \<open>The two maps of the reconciliation effect\<close>

text \<open>An entry \<^verbatim>\<open>{quadrants: string[]}\<close> of the \<^verbatim>\<open>ItemRadarsMap\<close>.\<close>

record item_radars =
  ire_quadrants :: "string list"

type_synonym ItemRadarsMap = "item_radars js_object"

text \<open>
  The body of the second \<^verbatim>\<open>reduce\<close>:
  \<^verbatim>\<open>acc[id] = acc[id] || { quadrants: [] }; acc[id].quadrants.push(quadrant)\<close>.
  An own entry is truthy and is assigned to itself. A missing key gets a new entry. An
  inherited value is truthy as well: it is assigned (for \<^verbatim>\<open>__proto__\<close> the assignment
  sets the prototype to what it was), it has no property \<^verbatim>\<open>quadrants\<close>, and
  \<^verbatim>\<open>undefined.push\<close> raises.
\<close>

definition itemRadarsMapStep :: "ItemRadarsMap \<Rightarrow> item_radar \<Rightarrow> error + ItemRadarsMap" where
  "itemRadarsMapStep acc w =
     (let rid = ir_id w; quadrant = ir_quadrant w
      in case objGet acc rid of
           Own e \<Rightarrow> Inr (objSet acc rid (e\<lparr>ire_quadrants := ire_quadrants e @ [quadrant]\<rparr>))
         | Missing \<Rightarrow> Inr (objSet acc rid \<lparr>ire_quadrants = [] @ [quadrant]\<rparr>)
         | Inherited \<Rightarrow> Inl (TypeError ''push''))"

text \<open>\<^verbatim>\<open>item.radars.reduce<ItemRadarsMap>(..., {})\<close>, stopping at the first exception.\<close>

fun itemRadarsMapReduce :: "item_radar list \<Rightarrow> ItemRadarsMap \<Rightarrow> error + ItemRadarsMap" where
  "itemRadarsMapReduce [] acc = Inr acc"
| "itemRadarsMapReduce (w # ws) acc =
     (case itemRadarsMapStep acc w of
        Inl e \<Rightarrow> Inl e
      | Inr acc' \<Rightarrow> itemRadarsMapReduce ws acc')"

text \<open>
  The \<^verbatim>\<open>RadarsMap\<close> of the first \<^verbatim>\<open>reduce\<close>, \<^verbatim>\<open>acc[r.id] = r\<close>. The assignment stores an
  own property for every key but \<^verbatim>\<open>__proto__\<close>: that key is an accessor of
  \<^verbatim>\<open>Object.prototype\<close>, and assigning an object to it replaces the prototype of \<open>acc\<close>
  by that object. The map is its own properties and the radar that became its prototype,
  if one did.
\<close>

record RadarsMap =
  rm_own :: "radar js_object"
  rm_proto :: "radar option"

definition radarsMapStep :: "RadarsMap \<Rightarrow> radar \<Rightarrow> RadarsMap" where
  "radarsMapStep acc r =
     (if r_id r = ''__proto__'' then acc\<lparr>rm_proto := Some r\<rparr>
      else acc\<lparr>rm_own := objSet (rm_own acc) (r_id r) r\<rparr>)"

definition radarsMapReduce :: "radar list \<Rightarrow> RadarsMap" where
  "radarsMapReduce rs = foldl radarsMapStep \<lparr>rm_own = [], rm_proto = None\<rparr> rs"

text \<open>What a read \<^verbatim>\<open>radarsMap[k]\<close> can give.\<close>

datatype js_value =
    Undefined
  | RadarValue radar
  | StringValue string
  | ArrayValue "string list"
  | FunctionValue string
  | ObjectPrototype

text \<open>\<^verbatim>\<open>Object.prototype[k]\<close> read through an object whose prototype chain ends there.\<close>

definition objectPrototypeGet :: "string \<Rightarrow> js_value" where
  "objectPrototypeGet k =
     (if k = ''__proto__'' then ObjectPrototype
      else if k = ''constructor'' then FunctionValue ''Object''
      else if k \<in> set objectPrototypeMethods then FunctionValue k
      else Undefined)"

text \<open>
  \<^verbatim>\<open>radarsMap[k]\<close>: the own property; else a property of the radar that is the prototype
  (its four fields \<^verbatim>\<open>id\<close>, \<^verbatim>\<open>name\<close>, \<^verbatim>\<open>rings\<close> and \<^verbatim>\<open>quadrants\<close>, and the radar itself for
  \<^verbatim>\<open>__proto__\<close>); else a property of \<^verbatim>\<open>Object.prototype\<close>; else \<^verbatim>\<open>undefined\<close>.
\<close>

definition radarsMapGet :: "RadarsMap \<Rightarrow> string \<Rightarrow> js_value" where
  "radarsMapGet m k =
     (case map_of (rm_own m) k of
        Some r \<Rightarrow> RadarValue r
      | None \<Rightarrow>
          (case rm_proto m of
             Some p \<Rightarrow>
               if k = ''id'' then StringValue (r_id p)
               else if k = ''name'' then StringValue (r_name p)
               else if k = ''rings'' then ArrayValue (r_rings p)
               else if k = ''quadrants'' then ArrayValue (r_quadrants p)
               else if k = ''__proto__'' then RadarValue p
               else objectPrototypeGet k
           | None \<Rightarrow> objectPrototypeGet k))"

text \<open>
  \<^verbatim>\<open>v.name\<close>: raises on \<^verbatim>\<open>undefined\<close>; a radar has a name, a function has its own name,
  and a string, an array and \<^verbatim>\<open>Object.prototype\<close> have no such property (\<open>None\<close>).
\<close>

definition nameOf :: "js_value \<Rightarrow> error + string option" where
  "nameOf v =
     (case v of
        Undefined \<Rightarrow> Inl (TypeError ''name'')
      | RadarValue r \<Rightarrow> Inr (Some (r_name r))
      | StringValue s \<Rightarrow> Inr None
      | ArrayValue xs \<Rightarrow> Inr None
      | FunctionValue f \<Rightarrow> Inr (Some f)
      | ObjectPrototype \<Rightarrow> Inr None)"

subsection \<open>The rows built by the reconciliation effect\<close>

text \<open>
  The callback of \<^verbatim>\<open>Object.keys(itemRadarsMap).map(...)\<close>: the label
  \<^verbatim>\<open>radarsMap[radarId].name\<close> is evaluated first, then
  \<^verbatim>\<open>formatSelectData(itemRadarsMap[radarId].quadrants)\<close>.
\<close>

definition formattedItemRadar :: "RadarsMap \<Rightarrow> ItemRadarsMap \<Rightarrow> string \<Rightarrow> error + form_radar" where
  "formattedItemRadar radarsMap itemRadarsMap rid =
     (case nameOf (radarsMapGet radarsMap rid) of
        Inl e \<Rightarrow> Inl e
      | Inr lbl \<Rightarrow>
          (case objGet itemRadarsMap rid of
             Own e \<Rightarrow>
               Inr (formatItemRadar \<lparr>fr_radarId = rid, fr_label = lbl,
                      fr_quadrants = formatSelectData (Some (ire_quadrants e))\<rparr>)
           | Inherited \<Rightarrow>
               Inr (formatItemRadar \<lparr>fr_radarId = rid, fr_label = lbl,
                      fr_quadrants = formatSelectData None\<rparr>)
           | Missing \<Rightarrow> Inl (TypeError ''quadrants'')))"

text \<open>\<^verbatim>\<open>Array.prototype.map\<close> with a callback that may raise: the first exception ends it.\<close>

fun mapRaising :: "('a \<Rightarrow> error + 'b) \<Rightarrow> 'a list \<Rightarrow> error + 'b list" where
  "mapRaising f [] = Inr []"
| "mapRaising f (x # xs) =
     (case f x of
        Inl e \<Rightarrow> Inl e
      | Inr y \<Rightarrow> (case mapRaising f xs of Inl e \<Rightarrow> Inl e | Inr ys \<Rightarrow> Inr (y # ys)))"

definition formattedItemRadars :: "RadarsMap \<Rightarrow> ItemRadarsMap \<Rightarrow> error + form_radar list" where
  "formattedItemRadars radarsMap itemRadarsMap =
     mapRaising (formattedItemRadar radarsMap itemRadarsMap) (objectKeys itemRadarsMap)"

subsection \<open>Form values and component state\<close>

text \<open>
  The values of the form (\<^verbatim>\<open>RadarItemFormData\<close>), with the two properties that
  \<^verbatim>\<open>reset({...item, ...})\<close> copies from the item besides the form's own fields.
\<close>

record form_values =
  fv_id :: "string option"
  fv_probation_result :: "probation_result option"
  fv_name :: string
  fv_description :: string
  fv_ring :: select_item
  fv_ru :: bool
  fv_ftt_matches :: bool
  fv_radars :: "form_radar list"

text \<open>
  The state of one mounted \<^verbatim>\<open>RadarItemForm\<close>: the data of the two queries
  (\<^verbatim>\<open>undefined\<close> until the fetch resolves), the \<^verbatim>\<open>itemRadars\<close> state and the form values.
  The field array \<^verbatim>\<open>fields\<close> is \<open>fv_radars\<close> of the values.
\<close>

record component =
  c_radars :: "radar list option"
  c_item :: "radar_item option"
  c_itemRadars :: ItemRadarsMap
  c_values :: form_values

text \<open>
  The effect of lines 78 to 116. An exception leaves the effect before \<^verbatim>\<open>reset\<close>; the
  result is then the exception.
\<close>

definition reconcile :: "radar list \<Rightarrow> radar_item \<Rightarrow> error + (ItemRadarsMap \<times> form_values)" where
  "reconcile rs it =
     (let radarsMap = radarsMapReduce rs
      in case itemRadarsMapReduce (ri_radars it) [] of
           Inl e \<Rightarrow> Inl e
         | Inr itemRadarsMap \<Rightarrow>
             (case formattedItemRadars radarsMap itemRadarsMap of
                Inl e \<Rightarrow> Inl e
              | Inr rows \<Rightarrow>
                  Inr (itemRadarsMap,
                       \<lparr>fv_id = Some (ri_id it),
                        fv_probation_result = Some (ri_probation_result it),
                        fv_name = ri_name it,
                        fv_description = ri_description it,
                        fv_ring = formatSelectItem (ri_ring it),
                        fv_ru = ri_ru it,
                        fv_ftt_matches = formatProbationResult (ri_probation_result it),
                        fv_radars = rows\<rparr>)))"

definition reconcileEffect :: "component \<Rightarrow> error + component" where
  "reconcileEffect c =
     (case c_radars c of
        None \<Rightarrow> Inr c
      | Some rs \<Rightarrow>
          (case c_item c of
             None \<Rightarrow> Inr c
           | Some it \<Rightarrow>
               (case reconcile rs it of
                  Inl e \<Rightarrow> Inl e
                | Inr (itemRadarsMap, vals) \<Rightarrow>
                    Inr (c\<lparr>c_itemRadars := itemRadarsMap, c_values := vals\<rparr>))))"

subsection \<open>Submit transform\<close>

text \<open>
  \<^verbatim>\<open>transformItemFormData\<close> of \<^verbatim>\<open>components/radars/form/item/utils\<close> is not among the
  sources. It follows section 4.2 of the specification (inverse transform).
\<close>

text \<open>
  Modelled from the spec: a form association row is flattened into zero or more
  \<^verbatim>\<open>{radar_id, quadrant}\<close> wire pairs, one pair per selected quadrant option; the pair
  holds the bare identifier of the option, and the display label is discarded.
\<close>

definition flattenRadar :: "form_radar \<Rightarrow> item_radar list" where
  "flattenRadar row =
     map (\<lambda>opt. \<lparr>ir_id = fr_radarId row, ir_quadrant = si_id opt\<rparr>) (fr_quadrants row)"

text \<open>Modelled from the spec: the rows are flattened one after the other, in row order.\<close>

definition flattenRadars :: "form_radar list \<Rightarrow> item_radar list" where
  "flattenRadars rows = concat (map flattenRadar rows)"

text \<open>
  Modelled from the spec: the data passed to the services, the wire shape without the
  item id. The specification does not say how the switch \<^verbatim>\<open>ftt_matches\<close> is written to the
  wire; the payload carries it as it is.
\<close>

record item_payload =
  p_name :: string
  p_description :: string
  p_ring :: string
  p_ru :: bool
  p_ftt_matches :: bool
  p_radars :: "item_radar list"

text \<open>
  Modelled from the spec: \<^verbatim>\<open>transformItemFormData\<close> flattens the association rows and
  unwraps the selected ring to the bare ring identifier.
\<close>

definition transformItemFormData :: "form_values \<Rightarrow> item_payload" where
  "transformItemFormData submitData =
     \<lparr>p_name = fv_name submitData,
      p_description = fv_description submitData,
      p_ring = si_id (fv_ring submitData),
      p_ru = fv_ru submitData,
      p_ftt_matches = fv_ftt_matches submitData,
      p_radars = flattenRadars (fv_radars submitData)\<rparr>"

subsection \<open>Props, events and handlers\<close>

text \<open>
  The props of the form: \<^verbatim>\<open>itemId\<close> (absent when a new item is created) and the radar
  the item is created under. The code tests an optional string by truthiness
  (\<^verbatim>\<open>if (itemId)\<close>, \<^verbatim>\<open>enabled: !!itemId\<close>, \<^verbatim>\<open>!selectedRadarId\<close>): \<^verbatim>\<open>undefined\<close> and the
  empty string are falsy, every other string is truthy.
\<close>

record props =
  pr_itemId :: "string option"
  pr_radar :: radar

definition truthy :: "string option \<Rightarrow> bool" where
  "truthy v = (case v of None \<Rightarrow> False | Some s \<Rightarrow> s \<noteq> [])"




text \<open>
  The rows are rendered under \<^verbatim>\<open>radars && fields.map(...)\<close>: a row has controls only when
  the catalog has been fetched.
\<close>

definition rowRendered :: "component \<Rightarrow> nat \<Rightarrow> bool" where
  "rowRendered c index = (c_radars c \<noteq> None \<and> index < length (fv_radars (c_values c)))"



text \<open>
  The button that adds a row: \<^verbatim>\<open>disabled={fields.length === radars?.length}\<close> and
  \<^verbatim>\<open>onClick={() => append({ radarId: '', label: '', quadrants: [] })}\<close>. While the catalog
  is not fetched, \<^verbatim>\<open>radars?.length\<close> is \<^verbatim>\<open>undefined\<close>, which no number equals. The button
  is outside the part rendered under \<^verbatim>\<open>radars &&\<close>.
\<close>

definition addDisabled :: "component \<Rightarrow> bool" where
  "addDisabled c =
     (case c_radars c of
        None \<Rightarrow> False
      | Some rs \<Rightarrow> length (fv_radars (c_values c)) = length rs)"

definition clickAdd :: "component \<Rightarrow> component" where
  "clickAdd c =
     (if addDisabled c then c
      else c\<lparr>c_values := (c_values c)\<lparr>fv_radars :=
             fv_radars (c_values c) @ [\<lparr>fr_radarId = [], fr_label = Some [], fr_quadrants = []\<rparr>]\<rparr>\<rparr>)"

text \<open>
  The button that removes a row: rendered inside a rendered row under
  \<^verbatim>\<open>fields.length > 1\<close>, with \<^verbatim>\<open>onClick={() => remove(index)}\<close>.
\<close>

definition removeRendered :: "component \<Rightarrow> nat \<Rightarrow> bool" where
  "removeRendered c index = (rowRendered c index \<and> length (fv_radars (c_values c)) > 1)"

definition clickRemove :: "nat \<Rightarrow> component \<Rightarrow> component" where
  "clickRemove index c =
     (if removeRendered c index
      then c\<lparr>c_values := (c_values c)\<lparr>fv_radars :=
             take index (fv_radars (c_values c)) @ drop (Suc index) (fv_radars (c_values c))\<rparr>\<rparr>
      else c)"





subsection \<open>Submission\<close>

text \<open>
  \<^verbatim>\<open>formSubmit\<close> of lines 135 to 150. The two services are outside the repository: a call
  either resolves or rejects with some error, which the parameter \<open>service\<close> decides
  (\<open>None\<close>: resolves). What \<^verbatim>\<open>formSubmit\<close> does is the sequence of its calls to the
  services, to \<^verbatim>\<open>console.error\<close> and to \<^verbatim>\<open>addSnackbar\<close>. The three messages are Russian
  texts in the source: "the item was updated", "the item was created", "an error occurred".
\<close>

datatype service_call =
    UpdateRadarItem string item_payload
  | CreateRadarItem string item_payload

datatype snackbar_status = Success | Alert

datatype snackbar_message = ItemUpdated | ItemCreated | ErrorOccurred

datatype 'e effect =
    Service service_call
  | ConsoleError 'e
  | AddSnackbar snackbar_message snackbar_status

text \<open>The \<^verbatim>\<open>try\<close> block: the calls made, and the error thrown if a service call rejected.\<close>

definition tryBlock :: "props \<Rightarrow> (service_call \<Rightarrow> 'e option) \<Rightarrow> item_payload \<Rightarrow> 'e effect list \<times> 'e option" where
  "tryBlock p service transformedData =
     (if truthy (pr_itemId p)
      then (let call = UpdateRadarItem (the (pr_itemId p)) transformedData
            in case service call of
                 Some e \<Rightarrow> ([Service call], Some e)
               | None \<Rightarrow> ([Service call, AddSnackbar ItemUpdated Success], None))
      else (let call = CreateRadarItem (r_id (pr_radar p)) transformedData
            in case service call of
                 Some e \<Rightarrow> ([Service call], Some e)
               | None \<Rightarrow> ([Service call, AddSnackbar ItemCreated Success], None)))"

definition formSubmit :: "props \<Rightarrow> (service_call \<Rightarrow> 'e option) \<Rightarrow> form_values \<Rightarrow> 'e effect list" where
  "formSubmit p service submitData =
     (let transformedData = transformItemFormData submitData
      in case tryBlock p service transformedData of
           (effects, None) \<Rightarrow> effects
         | (effects, Some e) \<Rightarrow> effects @ [ConsoleError e, AddSnackbar ErrorOccurred Alert])"

text \<open>
  Loading an item into the form and submitting the form untouched: the values that the
  effect passes to \<^verbatim>\<open>reset\<close> go through \<^verbatim>\<open>transformItemFormData\<close> (line 136), and the result
  is the flat list of the payload.
\<close>

definition loadThenSubmit :: "radar list \<Rightarrow> radar_item \<Rightarrow> error + item_radar list" where
  "loadThenSubmit rs it =
     (case reconcile rs it of
        Inl e \<Rightarrow> Inl e
      | Inr (itemRadarsMap, vals) \<Rightarrow> Inr (p_radars (transformItemFormData vals)))"

text \<open>The effects of a submission that are calls to a service.\<close>

definition isService :: "'e effect \<Rightarrow> bool" where
  "isService x = (case x of Service call \<Rightarrow> True | ConsoleError e \<Rightarrow> False | AddSnackbar m s \<Rightarrow> False)"

section \<open>Reference notions of the specification\<close>

text \<open>
  The specification describes the grouping in its own words: radar ids in order of first
  appearance, and for each radar id the quadrants of its wire entries in wire order. These
  two functions say that, independently of the code, for comparison with it.
\<close>

primrec firstSeen :: "'a list \<Rightarrow> 'a list" where
  "firstSeen [] = []"
| "firstSeen (x # xs) = x # filter (\<lambda>y. y \<noteq> x) (firstSeen xs)"

definition quadrantsOf :: "string \<Rightarrow> item_radar list \<Rightarrow> string list" where
  "quadrantsOf k W = map ir_quadrant (filter (\<lambda>w. ir_id w = k) W)"

definition groupByRadar :: "item_radar list \<Rightarrow> ItemRadarsMap" where
  "groupByRadar W =
     map (\<lambda>k. (k, \<lparr>ire_quadrants = quadrantsOf k W\<rparr>)) (firstSeen (map ir_id W))"

text \<open>
  The radar that the catalog map holds for an id: a later radar of the catalog replaces
  an earlier one with the same id.
\<close>

definition catalogRadar :: "radar list \<Rightarrow> string \<Rightarrow> radar option" where
  "catalogRadar rs k = find (\<lambda>r. r_id r = k) (rev rs)"

text \<open>
  The association row of the specification for a radar id: the label is the name the
  catalog gives, the quadrant options are the grouped quadrants, each as the option
  \<^verbatim>\<open>{id: q, label: q}\<close>.
\<close>

definition associationRow :: "radar list \<Rightarrow> item_radar list \<Rightarrow> string \<Rightarrow> form_radar" where
  "associationRow rs W k =
     \<lparr>fr_radarId = k,
      fr_label = map_option r_name (catalogRadar rs k),
      fr_quadrants = map (\<lambda>q. \<lparr>si_id = q, si_label = q\<rparr>) (quadrantsOf k W)\<rparr>"

text \<open>
  A wire list rearranged into contiguous groups, one group per radar id of \<open>ks\<close>, in the
  order of \<open>ks\<close>. With \<open>ks\<close> the radar ids in order of first appearance this is the
  normal form the specification names for the round trip.
\<close>

definition groupsOf :: "string list \<Rightarrow> item_radar list \<Rightarrow> item_radar list" where
  "groupsOf ks W = concat (map (\<lambda>k. filter (\<lambda>w. ir_id w = k) W) ks)"

section \<open>Example data\<close>

text \<open>
  The state of the form when it is mounted: no query has delivered, \<^verbatim>\<open>itemRadars\<close> is
  \<^verbatim>\<open>{}\<close>, and the values are the default values (\<^verbatim>\<open>defaultItemFormData\<close>, which is not
  among the sources and is a parameter here).
\<close>

definition mounted :: "form_values \<Rightarrow> component" where
  "mounted defaultValues =
     \<lparr>c_radars = None, c_item = None, c_itemRadars = [], c_values = defaultValues\<rparr>"

text \<open>Default values with one empty association row, for the examples.\<close>

definition exampleDefaults :: form_values where
  "exampleDefaults =
     \<lparr>fv_id = None, fv_probation_result = None, fv_name = [], fv_description = [],
      fv_ring = \<lparr>si_id = [], si_label = []\<rparr>, fv_ru = False, fv_ftt_matches = False,
      fv_radars = [\<lparr>fr_radarId = [], fr_label = Some [], fr_quadrants = []\<rparr>]\<rparr>"

text \<open>The end-to-end scenario of the specification (section 8).\<close>

abbreviation radarOne :: radar where
  "radarOne \<equiv>
     \<lparr>r_id = ''r1'', r_name = ''Radar One'', r_rings = [], r_quadrants = [''q1'', ''q2'', ''q3'']\<rparr>"

abbreviation radarTwo :: radar where
  "radarTwo \<equiv>
     \<lparr>r_id = ''r2'', r_name = ''Radar Two'', r_rings = [], r_quadrants = [''q3'', ''q4'']\<rparr>"

definition scenarioCatalog :: "radar list" where
  "scenarioCatalog = [radarOne, radarTwo]"

definition scenarioItem :: radar_item where
  "scenarioItem =
     \<lparr>ri_id = ''i1'', ri_name = ''Item'', ri_description = ''text'', ri_ring = Some ''adopt'',
      ri_ru = False, ri_probation_result = Passed,
      ri_radars = [\<lparr>ir_id = ''r1'', ir_quadrant = ''q1''\<rparr>,
                   \<lparr>ir_id = ''r1'', ir_quadrant = ''q2''\<rparr>,
                   \<lparr>ir_id = ''r2'', ir_quadrant = ''q3''\<rparr>]\<rparr>"

text \<open>A catalog and an item whose radar ids are the decimal numerals \<^verbatim>\<open>"1"\<close> and \<^verbatim>\<open>"2"\<close>.\<close>

definition numberedCatalog :: "radar list" where
  "numberedCatalog =
     [\<lparr>r_id = ''1'', r_name = ''One'', r_rings = [], r_quadrants = [''a'', ''b'']\<rparr>,
      \<lparr>r_id = ''2'', r_name = ''Two'', r_rings = [], r_quadrants = [''a'', ''b'']\<rparr>]"

definition numberedItem :: radar_item where
  "numberedItem =
     \<lparr>ri_id = ''i2'', ri_name = ''Item'', ri_description = ''text'', ri_ring = Some ''adopt'',
      ri_ru = False, ri_probation_result = Absent,
      ri_radars = [\<lparr>ir_id = ''2'', ir_quadrant = ''a''\<rparr>,
                   \<lparr>ir_id = ''1'', ir_quadrant = ''b''\<rparr>]\<rparr>"

text \<open>A catalog and an item with a radar whose id is \<^verbatim>\<open>"constructor"\<close>.\<close>

definition constructorCatalog :: "radar list" where
  "constructorCatalog =
     [\<lparr>r_id = ''constructor'', r_name = ''C'', r_rings = [], r_quadrants = [''a'']\<rparr>]"

definition constructorItem :: radar_item where
  "constructorItem =
     \<lparr>ri_id = ''i3'', ri_name = ''Item'', ri_description = ''text'', ri_ring = Some ''adopt'',
      ri_ru = False, ri_probation_result = Absent,
      ri_radars = [\<lparr>ir_id = ''constructor'', ir_quadrant = ''a''\<rparr>]\<rparr>"


text \<open>Props of a form that creates an item, and of a form that edits the item \<^verbatim>\<open>i1\<close>.\<close>

definition createProps :: props where
  "createProps = \<lparr>pr_itemId = None, pr_radar = radarOne\<rparr>"

definition editProps :: props where
  "editProps = \<lparr>pr_itemId = Some ''i1'', pr_radar = radarOne\<rparr>"

text \<open>
  A form whose two queries have delivered a catalog and an item, with the effect not yet
  run.
\<close>

definition loaded :: "radar list \<Rightarrow> radar_item \<Rightarrow> component" where
  "loaded rs it = (mounted exampleDefaults)\<lparr>c_radars := Some rs, c_item := Some it\<rparr>"

text \<open>A form that creates an item, after the catalog has been fetched.\<close>

definition catalogOnly :: "radar list \<Rightarrow> component" where
  "catalogOnly rs = (mounted exampleDefaults)\<lparr>c_radars := Some rs\<rparr>"

section \<open>Theorems\<close>

subsection \<open>Objects, grouping and the catalog map\<close>

lemma map_of_objSet: "map_of (objSet m k v) = (map_of m)(k \<mapsto> v)"
  by (induction m k v rule: objSet.induct) (auto simp: fun_eq_iff)

lemma keys_objSet:
  "map fst (objSet m k v) = (if k \<in> set (map fst m) then map fst m else map fst m @ [k])"
  by (induction m k v rule: objSet.induct) auto

lemma objSet_map_member:
  "distinct ks \<Longrightarrow> k \<in> set ks \<Longrightarrow>
   objSet (map (\<lambda>x. (x, f x)) ks) k v = map (\<lambda>x. (x, if x = k then v else f x)) ks"
  by (induction ks) auto

lemma objSet_map_fresh:
  "k \<notin> set ks \<Longrightarrow> objSet (map (\<lambda>x. (x, f x)) ks) k v = map (\<lambda>x. (x, f x)) ks @ [(k, v)]"
  by (induction ks) auto

lemma map_of_map_key:
  "map_of (map (\<lambda>x. (x, f x)) ks) k = (if k \<in> set ks then Some (f k) else None)"
  by (induction ks) auto

lemma set_firstSeen: "set (firstSeen xs) = set xs"
  by (induction xs) auto

lemma distinct_firstSeen: "distinct (firstSeen xs)"
  by (induction xs) (auto simp: set_firstSeen)

lemma firstSeen_snoc:
  "firstSeen (xs @ [x]) = (if x \<in> set xs then firstSeen xs else firstSeen xs @ [x])"
  by (induction xs) (auto simp: set_firstSeen)

lemma quadrantsOf_snoc:
  "quadrantsOf k (W @ [w]) = quadrantsOf k W @ (if ir_id w = k then [ir_quadrant w] else [])"
  by (simp add: quadrantsOf_def)

lemma itemRadarsMapReduce_append:
  "itemRadarsMapReduce (xs @ ys) acc =
     (case itemRadarsMapReduce xs acc of Inl e \<Rightarrow> Inl e | Inr a \<Rightarrow> itemRadarsMapReduce ys a)"
  by (induction xs arbitrary: acc) (auto split: sum.splits)

lemma objGet_groupByRadar:
  "objGet (groupByRadar W) k =
     (if k \<in> set (map ir_id W) then Own \<lparr>ire_quadrants = quadrantsOf k W\<rparr>
      else if k \<in> set inheritedKeys then Inherited else Missing)"
  by (simp add: objGet_def groupByRadar_def map_of_map_key set_firstSeen)

lemma itemRadarsMapStep_groupByRadar:
  assumes "ir_id w \<notin> set inheritedKeys"
  shows "itemRadarsMapStep (groupByRadar W) w = Inr (groupByRadar (W @ [w]))"
proof (cases "ir_id w \<in> set (map ir_id W)")
  case True
  then show ?thesis
    using assms
    by (simp add: itemRadarsMapStep_def objGet_groupByRadar Let_def)
       (simp add: groupByRadar_def firstSeen_snoc objSet_map_member distinct_firstSeen
          set_firstSeen quadrantsOf_snoc)
next
  case False
  then have neq: "\<And>x. x \<in> set W \<Longrightarrow> ir_id w \<noteq> ir_id x"
    by (metis image_eqI list.set_map)
  then have none: "filter (\<lambda>x. ir_id x = ir_id w) W = []"
    by (metis (mono_tags, lifting) filter_False)
  from False assms show ?thesis
    by (simp add: itemRadarsMapStep_def objGet_groupByRadar Let_def)
       (simp add: groupByRadar_def firstSeen_snoc objSet_map_fresh set_firstSeen
          quadrantsOf_def none neq)
qed

lemma itemRadarsMapReduce_groupByRadar:
  "list_all (\<lambda>w. ir_id w \<notin> set inheritedKeys) W \<Longrightarrow>
   itemRadarsMapReduce W [] = Inr (groupByRadar W)"
proof (induction W rule: rev_induct)
  case Nil
  then show ?case by (simp add: groupByRadar_def)
next
  case (snoc w W)
  then show ?case
    by (simp add: itemRadarsMapReduce_append itemRadarsMapStep_groupByRadar)
qed

lemma itemRadarsMapReduce_inherited:
  "\<not> list_all (\<lambda>w. ir_id w \<notin> set inheritedKeys) W \<Longrightarrow>
   itemRadarsMapReduce W [] = Inl (TypeError ''push'')"
proof (induction W rule: rev_induct)
  case Nil
  then show ?case by simp
next
  case (snoc w W)
  show ?case
  proof (cases "list_all (\<lambda>w. ir_id w \<notin> set inheritedKeys) W")
    case True
    with snoc.prems have inh: "ir_id w \<in> set inheritedKeys" by simp
    have "ir_id w \<notin> set (map ir_id W)"
      using True inh by (auto simp: list_all_iff)
    then have "itemRadarsMapStep (groupByRadar W) w = Inl (TypeError ''push'')"
      using inh by (simp add: itemRadarsMapStep_def objGet_groupByRadar Let_def)
    then show ?thesis
      using True by (simp add: itemRadarsMapReduce_append itemRadarsMapReduce_groupByRadar)
  next
    case False
    then show ?thesis
      using snoc.IH by (simp add: itemRadarsMapReduce_append)
  qed
qed

lemma find_Some_ex:
  "\<exists>x \<in> set xs. P x \<Longrightarrow> \<exists>y. find P xs = Some y \<and> y \<in> set xs \<and> P y"
  by (induction xs) auto

lemma find_catalog:
  "k \<in> set (map r_id rs) \<Longrightarrow>
   \<exists>r. find (\<lambda>r. r_id r = k) (rev rs) = Some r \<and> r \<in> set rs \<and> r_id r = k"
  using find_Some_ex [of "rev rs" "\<lambda>r. r_id r = k"] by auto

lemma radarsMapReduce_snoc:
  "radarsMapReduce (rs @ [r]) = radarsMapStep (radarsMapReduce rs) r"
  by (simp add: radarsMapReduce_def)

lemma radarsMap_own:
  "k \<noteq> ''__proto__'' \<Longrightarrow>
   map_of (rm_own (radarsMapReduce rs)) k = find (\<lambda>r. r_id r = k) (rev rs)"
proof (induction rs rule: rev_induct)
  case Nil
  then show ?case by (simp add: radarsMapReduce_def)
next
  case (snoc r rs)
  then show ?case
    by (auto simp: radarsMapReduce_snoc radarsMapStep_def map_of_objSet)
qed

lemma mapRaising_Inr:
  "(\<And>x. x \<in> set xs \<Longrightarrow> f x = Inr (g x)) \<Longrightarrow> mapRaising f xs = Inr (map g xs)"
  by (induction xs) auto

lemma indexed_keys:
  "map snd (List.map_filter (\<lambda>k. map_option (\<lambda>n. (n, k)) (arrayIndex k)) ks)
     = filter (\<lambda>k. arrayIndex k \<noteq> None) ks"
  by (induction ks) auto

lemma mset_ownKeyOrder: "mset (ownKeyOrder ks) = mset ks"
proof -
  let ?L = "List.map_filter (\<lambda>k. map_option (\<lambda>n. (n, k)) (arrayIndex k)) ks"
  have "mset (map snd (sort_key fst ?L)) = mset (map snd ?L)"
    by simp
  also have "\<dots> = mset (filter (\<lambda>k. arrayIndex k \<noteq> None) ks)"
    by (simp only: indexed_keys)
  finally have "mset (ownKeyOrder ks)
      = mset (filter (\<lambda>k. arrayIndex k \<noteq> None) ks) + mset (filter (\<lambda>k. arrayIndex k = None) ks)"
    by (simp only: ownKeyOrder_def mset_append)
  then show ?thesis
    by simp
qed

lemma set_ownKeyOrder: "set (ownKeyOrder ks) = set ks"
  using mset_ownKeyOrder [of ks] by (metis set_mset_mset)

lemma distinct_ownKeyOrder: "distinct (ownKeyOrder ks) = distinct ks"
  using mset_ownKeyOrder [of ks] by (rule mset_eq_imp_distinct_iff)

lemma ownKeyOrder_no_index:
  "list_all (\<lambda>k. arrayIndex k = None) ks \<Longrightarrow> ownKeyOrder ks = ks"
proof -
  assume a: "list_all (\<lambda>k. arrayIndex k = None) ks"
  then have "List.map_filter (\<lambda>k. map_option (\<lambda>n. (n, k)) (arrayIndex k)) ks = []"
    by (induction ks) (auto simp: List.map_filter_simps)
  moreover have "filter (\<lambda>k. arrayIndex k = None) ks = ks"
    using a by (simp add: list_all_iff)
  ultimately show ?thesis
    by (simp add: ownKeyOrder_def)
qed

lemma indexed_pairs:
  "(n, k) \<in> set (List.map_filter (\<lambda>k. map_option (\<lambda>n. (n, k)) (arrayIndex k)) ks)
   \<Longrightarrow> arrayIndex k = Some n"
  by (induction ks) (auto split: option.splits)

lemma map_filter_indexed:
  "(\<And>n k. (n, k) \<in> set ps \<Longrightarrow> arrayIndex k = Some n) \<Longrightarrow>
   List.map_filter arrayIndex (map snd ps) = map fst ps"
proof (induction ps)
  case Nil
  then show ?case by simp
next
  case (Cons p ps)
  obtain n k where p: "p = (n, k)" by (cases p)
  with Cons.prems have "arrayIndex k = Some n" by simp
  moreover have "List.map_filter arrayIndex (map snd ps) = map fst ps"
    using Cons.prems by (intro Cons.IH) simp
  ultimately show ?case
    using p by simp
qed

lemma map_filter_not_indexed:
  "List.map_filter arrayIndex (filter (\<lambda>k. arrayIndex k = None) ks) = []"
  by (induction ks) auto

lemma map_filter_append:
  "List.map_filter f (xs @ ys) = List.map_filter f xs @ List.map_filter f ys"
  by (simp add: List.map_filter_def)

lemma ownKeyOrder_shape:
  "filter (\<lambda>k. arrayIndex k = None) (ownKeyOrder ks) = filter (\<lambda>k. arrayIndex k = None) ks
   \<and> sorted (List.map_filter arrayIndex (ownKeyOrder ks))
   \<and> ownKeyOrder ks = filter (\<lambda>k. arrayIndex k \<noteq> None) (ownKeyOrder ks)
                        @ filter (\<lambda>k. arrayIndex k = None) (ownKeyOrder ks)"
proof -
  let ?L = "List.map_filter (\<lambda>k. map_option (\<lambda>n. (n, k)) (arrayIndex k)) ks"
  let ?A = "map snd (sort_key fst ?L)"
  let ?B = "filter (\<lambda>k. arrayIndex k = None) ks"
  have own: "ownKeyOrder ks = ?A @ ?B"
    by (simp add: ownKeyOrder_def)
  have pairs: "\<And>n k. (n, k) \<in> set (sort_key fst ?L) \<Longrightarrow> arrayIndex k = Some n"
    using indexed_pairs [of _ _ ks] by simp
  then have idxA: "\<And>k. k \<in> set ?A \<Longrightarrow> arrayIndex k \<noteq> None"
    by fastforce
  have A0: "filter (\<lambda>k. arrayIndex k = None) ?A = []"
    using idxA by (simp add: filter_empty_conv)
  have A1: "filter (\<lambda>k. arrayIndex k \<noteq> None) ?A = ?A"
    using idxA by (simp add: filter_id_conv)
  have B0: "filter (\<lambda>k. arrayIndex k = None) ?B = ?B"
    by simp
  have B1: "filter (\<lambda>k. arrayIndex k \<noteq> None) ?B = []"
    by (auto simp: filter_empty_conv)
  have a: "filter (\<lambda>k. arrayIndex k = None) (?A @ ?B) = ?B"
    by (simp only: filter_append A0 B0 append_Nil)
  have c: "filter (\<lambda>k. arrayIndex k \<noteq> None) (?A @ ?B) = ?A"
    by (simp only: filter_append A1 B1 append_Nil2)
  have "List.map_filter arrayIndex ?A = map fst (sort_key fst ?L)"
    using pairs by (rule map_filter_indexed)
  then have b: "sorted (List.map_filter arrayIndex (?A @ ?B))"
    by (simp add: map_filter_append map_filter_not_indexed)
  from a b c show ?thesis
    by (simp only: own)
qed

lemma proto_inherited: "''__proto__'' \<in> set inheritedKeys"
  by (simp add: inheritedKeys_def)

lemma keys_groupByRadar: "map fst (groupByRadar W) = firstSeen (map ir_id W)"
  by (simp add: groupByRadar_def comp_def)

lemma objectKeys_groupByRadar:
  "objectKeys (groupByRadar W) = ownKeyOrder (firstSeen (map ir_id W))"
  by (simp add: objectKeys_def keys_groupByRadar)

lemma formatSelectData_Some:
  "formatSelectData (Some qs) = map (\<lambda>q. \<lparr>si_id = q, si_label = q\<rparr>) qs"
  by (simp add: formatSelectData_def formatSelectItem_def)

lemma radarsMapGet_catalog:
  assumes "k \<in> set (map r_id rs)" "k \<noteq> ''__proto__''"
  shows "\<exists>r. catalogRadar rs k = Some r \<and> r \<in> set rs \<and> r_id r = k
             \<and> radarsMapGet (radarsMapReduce rs) k = RadarValue r"
proof -
  from find_catalog [OF assms(1)] obtain r where
    r: "find (\<lambda>r. r_id r = k) (rev rs) = Some r" "r \<in> set rs" "r_id r = k"
    by blast
  then have "map_of (rm_own (radarsMapReduce rs)) k = Some r"
    using radarsMap_own [OF assms(2)] by simp
  then have "radarsMapGet (radarsMapReduce rs) k = RadarValue r"
    by (simp add: radarsMapGet_def)
  with r show ?thesis
    by (simp add: catalogRadar_def)
qed

lemma formattedItemRadar_catalog:
  assumes "k \<in> set (map ir_id W)" "k \<in> set (map r_id rs)" "k \<notin> set inheritedKeys"
  shows "formattedItemRadar (radarsMapReduce rs) (groupByRadar W) k = Inr (associationRow rs W k)"
proof -
  from assms(3) have "k \<noteq> ''__proto__''"
    using proto_inherited by auto
  from radarsMapGet_catalog [OF assms(2) this] obtain r where
    r: "catalogRadar rs k = Some r" "radarsMapGet (radarsMapReduce rs) k = RadarValue r"
    by blast
  have own: "objGet (groupByRadar W) k = Own \<lparr>ire_quadrants = quadrantsOf k W\<rparr>"
    using assms(1) by (simp add: objGet_groupByRadar)
  show ?thesis
    by (simp add: formattedItemRadar_def r nameOf_def own formatItemRadar_def
        formatSelectData_Some associationRow_def)
qed

lemma formattedItemRadars_catalog:
  assumes "list_all (\<lambda>w. ir_id w \<notin> set inheritedKeys) W"
    and "set (map ir_id W) \<subseteq> set (map r_id rs)"
  shows "formattedItemRadars (radarsMapReduce rs) (groupByRadar W)
         = Inr (map (associationRow rs W) (ownKeyOrder (firstSeen (map ir_id W))))"
proof -
  have "\<And>k. k \<in> set (ownKeyOrder (firstSeen (map ir_id W))) \<Longrightarrow>
     formattedItemRadar (radarsMapReduce rs) (groupByRadar W) k = Inr (associationRow rs W k)"
  proof -
    fix k assume "k \<in> set (ownKeyOrder (firstSeen (map ir_id W)))"
    then have k: "k \<in> set (map ir_id W)"
      by (simp add: set_ownKeyOrder set_firstSeen)
    then have "k \<notin> set inheritedKeys"
      using assms(1) by (auto simp: list_all_iff)
    with k assms(2) show "formattedItemRadar (radarsMapReduce rs) (groupByRadar W) k
        = Inr (associationRow rs W k)"
      by (intro formattedItemRadar_catalog) auto
  qed
  then show ?thesis
    by (simp add: formattedItemRadars_def objectKeys_groupByRadar mapRaising_Inr)
qed

lemma reconcile_catalog:
  assumes "list_all (\<lambda>w. ir_id w \<notin> set inheritedKeys) (ri_radars it)"
    and "set (map ir_id (ri_radars it)) \<subseteq> set (map r_id rs)"
  shows "reconcile rs it =
     Inr (groupByRadar (ri_radars it),
          \<lparr>fv_id = Some (ri_id it),
           fv_probation_result = Some (ri_probation_result it),
           fv_name = ri_name it,
           fv_description = ri_description it,
           fv_ring = formatSelectItem (ri_ring it),
           fv_ru = ri_ru it,
           fv_ftt_matches = formatProbationResult (ri_probation_result it),
           fv_radars = map (associationRow rs (ri_radars it))
                         (ownKeyOrder (firstSeen (map ir_id (ri_radars it))))\<rparr>)"
  by (simp add: reconcile_def itemRadarsMapReduce_groupByRadar [OF assms(1)]
      formattedItemRadars_catalog [OF assms])

lemma flattenRadar_associationRow:
  "flattenRadar (associationRow rs W k) = filter (\<lambda>w. ir_id w = k) W"
proof -
  have "map (\<lambda>w. \<lparr>ir_id = k, ir_quadrant = ir_quadrant w\<rparr>) (filter (\<lambda>w. ir_id w = k) W)
        = filter (\<lambda>w. ir_id w = k) W"
    by (rule map_idI) auto
  then show ?thesis
    by (simp add: flattenRadar_def associationRow_def quadrantsOf_def comp_def)
qed

lemma flattenRadars_associationRows:
  "flattenRadars (map (associationRow rs W) ks)
     = concat (map (\<lambda>k. filter (\<lambda>w. ir_id w = k) W) ks)"
  by (simp add: flattenRadars_def comp_def flattenRadar_associationRow)

lemma mset_groups:
  "distinct ks \<Longrightarrow> set (map ir_id W) \<subseteq> set ks \<Longrightarrow>
   mset (concat (map (\<lambda>k. filter (\<lambda>w. ir_id w = k) W) ks)) = mset W"
proof (induction ks arbitrary: W)
  case Nil
  then show ?case by simp
next
  case (Cons k ks)
  let ?W' = "filter (\<lambda>w. ir_id w \<noteq> k) W"
  have sub: "set (map ir_id ?W') \<subseteq> set ks"
    using Cons.prems(2) by auto
  have "map (\<lambda>k'. filter (\<lambda>w. ir_id w = k') W) ks
        = map (\<lambda>k'. filter (\<lambda>w. ir_id w = k') ?W') ks"
  proof (rule map_cong [OF refl])
    fix k' assume "k' \<in> set ks"
    with Cons.prems(1) have "k' \<noteq> k" by auto
    then show "filter (\<lambda>w. ir_id w = k') W = filter (\<lambda>w. ir_id w = k') ?W'"
      by (auto intro: filter_cong)
  qed
  moreover have "mset (concat (map (\<lambda>k'. filter (\<lambda>w. ir_id w = k') ?W') ks)) = mset ?W'"
  proof (rule Cons.IH)
    show "distinct ks" using Cons.prems(1) by simp
    show "set (map ir_id ?W') \<subseteq> set ks" by (rule sub)
  qed
  ultimately have rest: "mset (concat (map (\<lambda>k'. filter (\<lambda>w. ir_id w = k') W) ks)) = mset ?W'"
    by (simp only:)
  have "mset (concat (map (\<lambda>k'. filter (\<lambda>w. ir_id w = k') W) (k # ks)))
        = mset (filter (\<lambda>w. ir_id w = k) W)
          + mset (concat (map (\<lambda>k'. filter (\<lambda>w. ir_id w = k') W) ks))"
    by simp
  also have "\<dots> = mset (filter (\<lambda>w. ir_id w = k) W) + mset ?W'"
    by (simp only: rest)
  also have "\<dots> = mset W"
    by (simp add: multiset_eq_iff)
  finally show ?case .
qed

lemma length_firstSeen_le: "length (firstSeen xs) \<le> length xs"
  by (induction xs) (auto intro: le_trans [OF length_filter_le])

lemma not_index_r1: "arrayIndex ''r1'' = None"
  by (simp add: arrayIndex_def isDigit_def)

lemma not_index_r2: "arrayIndex ''r2'' = None"
  by (simp add: arrayIndex_def isDigit_def)

lemma index_1: "arrayIndex ''1'' = Some 1"
  by (simp add: arrayIndex_def isDigit_def decimalValue_def digitValue_def)

lemma index_2: "arrayIndex ''2'' = Some 2"
  by (simp add: arrayIndex_def isDigit_def decimalValue_def digitValue_def)

lemma constructor_inherited: "''constructor'' \<in> set inheritedKeys"
  by (simp add: inheritedKeys_def)

lemma scenario_not_inherited:
  "list_all (\<lambda>w. ir_id w \<notin> set inheritedKeys) (ri_radars scenarioItem)"
  by (simp add: scenarioItem_def inheritedKeys_def objectPrototypeMethods_def)

lemma scenario_in_catalog:
  "set (map ir_id (ri_radars scenarioItem)) \<subseteq> set (map r_id scenarioCatalog)"
  by (simp add: scenarioItem_def scenarioCatalog_def)

lemma scenario_key_order:
  "ownKeyOrder (firstSeen (map ir_id (ri_radars scenarioItem))) = [''r1'', ''r2'']"
  by (simp add: scenarioItem_def ownKeyOrder_def not_index_r1 not_index_r2 List.map_filter_def)

lemma scenario_rows:
  "map (associationRow scenarioCatalog (ri_radars scenarioItem)) [''r1'', ''r2'']
   = [\<lparr>fr_radarId = ''r1'', fr_label = Some ''Radar One'',
        fr_quadrants = [\<lparr>si_id = ''q1'', si_label = ''q1''\<rparr>, \<lparr>si_id = ''q2'', si_label = ''q2''\<rparr>]\<rparr>,
      \<lparr>fr_radarId = ''r2'', fr_label = Some ''Radar Two'',
        fr_quadrants = [\<lparr>si_id = ''q3'', si_label = ''q3''\<rparr>]\<rparr>]"
  by (simp add: associationRow_def catalogRadar_def scenarioCatalog_def scenarioItem_def
      quadrantsOf_def)

lemma numbered_grouping:
  "itemRadarsMapReduce (ri_radars numberedItem) []
   = Inr [(''2'', \<lparr>ire_quadrants = [''a'']\<rparr>), (''1'', \<lparr>ire_quadrants = [''b'']\<rparr>)]"
  by (simp add: numberedItem_def itemRadarsMapStep_def objGet_def inheritedKeys_def
      objectPrototypeMethods_def)

lemma numbered_keys:
  "objectKeys [(''2'', \<lparr>ire_quadrants = [''a'']\<rparr>), (''1'', \<lparr>ire_quadrants = [''b'']\<rparr>)]
   = [''1'', ''2'']"
  by (simp add: objectKeys_def ownKeyOrder_def index_1 index_2 List.map_filter_def)

lemma numbered_rows:
  "formattedItemRadars (radarsMapReduce numberedCatalog)
     [(''2'', \<lparr>ire_quadrants = [''a'']\<rparr>), (''1'', \<lparr>ire_quadrants = [''b'']\<rparr>)]
   = Inr [\<lparr>fr_radarId = ''1'', fr_label = Some ''One'',
            fr_quadrants = [\<lparr>si_id = ''b'', si_label = ''b''\<rparr>]\<rparr>,
          \<lparr>fr_radarId = ''2'', fr_label = Some ''Two'',
            fr_quadrants = [\<lparr>si_id = ''a'', si_label = ''a''\<rparr>]\<rparr>]"
  by (simp add: formattedItemRadars_def numbered_keys formattedItemRadar_def
      radarsMapReduce_def radarsMapStep_def numberedCatalog_def radarsMapGet_def nameOf_def
      objGet_def formatItemRadar_def formatSelectData_Some)

lemma constructor_grouping:
  "itemRadarsMapReduce (ri_radars constructorItem) [] = Inl (TypeError ''push'')"
  by (simp add: constructorItem_def itemRadarsMapStep_def objGet_def inheritedKeys_def)

lemma mapRaising_Inl:
  "\<exists>x \<in> set xs. f x = Inl e \<Longrightarrow> (\<And>x. x \<in> set xs \<Longrightarrow> f x = Inl e \<or> (\<exists>y. f x = Inr y)) \<Longrightarrow>
   mapRaising f xs = Inl e"
proof (induction xs)
  case Nil
  then show ?case by simp
next
  case (Cons x xs)
  show ?case
  proof (cases "f x")
    case (Inl e')
    with Cons.prems(2) [of x] show ?thesis by simp
  next
    case (Inr y)
    with Cons.prems(1) have "\<exists>x \<in> set xs. f x = Inl e" by auto
    then have "mapRaising f xs = Inl e"
      using Cons.prems(2) by (intro Cons.IH) auto
    with Inr show ?thesis by simp
  qed
qed

lemma radarsMap_proto_None:
  "''__proto__'' \<notin> set (map r_id rs) \<Longrightarrow> rm_proto (radarsMapReduce rs) = None"
proof (induction rs rule: rev_induct)
  case Nil
  then show ?case by (simp add: radarsMapReduce_def)
next
  case (snoc r rs)
  then show ?case
    by (auto simp: radarsMapReduce_snoc radarsMapStep_def)
qed

lemma objectPrototypeGet_Undefined:
  "k \<notin> set inheritedKeys \<Longrightarrow> objectPrototypeGet k = Undefined"
  by (simp add: objectPrototypeGet_def inheritedKeys_def)

lemma formattedItemRadar_missing:
  assumes "k \<notin> set (map r_id rs)" "k \<notin> set inheritedKeys" "''__proto__'' \<notin> set (map r_id rs)"
  shows "formattedItemRadar (radarsMapReduce rs) itemRadarsMap k = Inl (TypeError ''name'')"
proof -
  from assms(2) have "k \<noteq> ''__proto__''"
    using proto_inherited by auto
  then have "map_of (rm_own (radarsMapReduce rs)) k = find (\<lambda>r. r_id r = k) (rev rs)"
    by (rule radarsMap_own)
  also have "\<dots> = None"
    using assms(1) by (auto simp: find_None_iff)
  finally have "radarsMapGet (radarsMapReduce rs) k = Undefined"
    by (simp add: radarsMapGet_def radarsMap_proto_None [OF assms(3)]
        objectPrototypeGet_Undefined [OF assms(2)])
  then show ?thesis
    by (simp add: formattedItemRadar_def nameOf_def)
qed

lemma grouping_cases:
  "(list_all (\<lambda>w. ir_id w \<notin> set inheritedKeys) W \<and> itemRadarsMapReduce W [] = Inr (groupByRadar W))
   \<or> (\<not> list_all (\<lambda>w. ir_id w \<notin> set inheritedKeys) W \<and> itemRadarsMapReduce W [] = Inl (TypeError ''push''))"
  using itemRadarsMapReduce_groupByRadar [of W] itemRadarsMapReduce_inherited [of W] by blast






lemma scenario_effect:
  assumes "c_radars c = Some scenarioCatalog" "c_item c = Some scenarioItem"
  shows "\<exists>c'. reconcileEffect c = Inr c'"
  by (simp add: reconcileEffect_def assms
      reconcile_catalog [OF scenario_not_inherited scenario_in_catalog])

lemma formatFieldsToArray_Objects: "formatFieldsToArray (formatFieldsToObjects xs) = xs"
  by (simp add: formatFieldsToArray_def formatFieldsToObjects_def comp_def)

subsection \<open>The claims\<close>

text \<open>
  Claim C1, amended. With the catalog and the item fetched, every radar id of the wire
  list present in the catalog, and no radar id of the wire list the name of a property
  that an object literal inherits (\<^verbatim>\<open>constructor\<close>, \<^verbatim>\<open>toString\<close>, \<^verbatim>\<open>__proto__\<close>, ...), the
  effect completes; the \<^verbatim>\<open>ItemRadarsMap\<close> it stores is the grouping of the wire list by
  radar id (ids in order of first appearance, quadrants of each id in wire order); the
  rows it writes to the form are exactly one per distinct radar id, each with the name
  of a catalog radar of that id as label and the grouped quadrants as \<^verbatim>\<open>{id, label}\<close>
  options. The rows come in the order of \<^verbatim>\<open>Object.keys\<close>: the ids that are not array
  indices keep their order of first appearance, the ids that are array indices are in
  ascending numeric order, and these come before the others; when no id is an array index
  this is the order of first appearance.
\<close>

theorem C1_reconcile_rows:
  assumes "c_radars c = Some rs" and "c_item c = Some it"
    and "list_all (\<lambda>w. ir_id w \<notin> set inheritedKeys) (ri_radars it)"
    and "set (map ir_id (ri_radars it)) \<subseteq> set (map r_id rs)"
  shows "\<exists>c'. reconcileEffect c = Inr c'
           \<and> c_itemRadars c' = groupByRadar (ri_radars it)
           \<and> fv_radars (c_values c')
               = map (associationRow rs (ri_radars it))
                   (ownKeyOrder (firstSeen (map ir_id (ri_radars it))))
           \<and> distinct (map fr_radarId (fv_radars (c_values c')))
           \<and> set (map fr_radarId (fv_radars (c_values c'))) = set (map ir_id (ri_radars it))
           \<and> list_all (\<lambda>row. \<exists>r \<in> set rs. r_id r = fr_radarId row
                                  \<and> fr_label row = Some (r_name r)) (fv_radars (c_values c'))
           \<and> filter (\<lambda>k. arrayIndex k = None) (map fr_radarId (fv_radars (c_values c')))
               = filter (\<lambda>k. arrayIndex k = None) (firstSeen (map ir_id (ri_radars it)))
           \<and> sorted (List.map_filter arrayIndex (map fr_radarId (fv_radars (c_values c'))))
           \<and> map fr_radarId (fv_radars (c_values c'))
               = filter (\<lambda>k. arrayIndex k \<noteq> None) (map fr_radarId (fv_radars (c_values c')))
                 @ filter (\<lambda>k. arrayIndex k = None) (map fr_radarId (fv_radars (c_values c')))
           \<and> (list_all (\<lambda>w. arrayIndex (ir_id w) = None) (ri_radars it)
                \<longrightarrow> map fr_radarId (fv_radars (c_values c')) = firstSeen (map ir_id (ri_radars it)))"
proof -
  let ?W = "ri_radars it"
  let ?ks = "ownKeyOrder (firstSeen (map ir_id ?W))"
  let ?rows = "map (associationRow rs ?W) ?ks"
  obtain vals where rec: "reconcile rs it = Inr (groupByRadar ?W, vals)"
    and rows: "fv_radars vals = ?rows"
    using reconcile_catalog [OF assms(3,4)] by simp
  let ?c' = "c\<lparr>c_itemRadars := groupByRadar ?W, c_values := vals\<rparr>"
  have eff: "reconcileEffect c = Inr ?c'"
    by (simp add: reconcileEffect_def assms(1,2) rec)
  have ids: "map fr_radarId ?rows = ?ks"
    by (simp add: comp_def associationRow_def)
  have dist: "distinct ?ks"
    by (simp add: distinct_ownKeyOrder distinct_firstSeen)
  have keys: "set ?ks = set (map ir_id ?W)"
    by (simp add: set_ownKeyOrder set_firstSeen)
  have labels: "list_all (\<lambda>row. \<exists>r \<in> set rs. r_id r = fr_radarId row
                                  \<and> fr_label row = Some (r_name r)) ?rows"
  proof -
    have "\<exists>r \<in> set rs. r_id r = k \<and> map_option r_name (catalogRadar rs k) = Some (r_name r)"
      if "k \<in> set ?ks" for k
    proof -
      from that keys assms(4) have "k \<in> set (map r_id rs)" by auto
      from find_catalog [OF this] show ?thesis
        by (auto simp: catalogRadar_def)
    qed
    then show ?thesis
      by (simp add: list_all_iff associationRow_def)
  qed
  have order: "map fr_radarId ?rows = firstSeen (map ir_id ?W)"
    if "list_all (\<lambda>w. arrayIndex (ir_id w) = None) ?W"
  proof -
    from that have "list_all (\<lambda>k. arrayIndex k = None) (firstSeen (map ir_id ?W))"
      by (auto simp: list_all_iff set_firstSeen)
    then have "?ks = firstSeen (map ir_id ?W)"
      by (rule ownKeyOrder_no_index)
    with ids show ?thesis
      by (simp only:)
  qed
  have sel: "c_itemRadars ?c' = groupByRadar ?W" "fv_radars (c_values ?c') = ?rows"
    by (simp_all add: rows)
  show ?thesis
  proof (intro exI [of _ ?c'] conjI)
    show "reconcileEffect c = Inr ?c'" by (rule eff)
    show "c_itemRadars ?c' = groupByRadar ?W" by (rule sel)
    show "fv_radars (c_values ?c') = ?rows" by (rule sel)
    show "distinct (map fr_radarId (fv_radars (c_values ?c')))"
      unfolding sel ids by (rule dist)
    show "set (map fr_radarId (fv_radars (c_values ?c'))) = set (map ir_id ?W)"
      unfolding sel ids by (rule keys)
    show "list_all (\<lambda>row. \<exists>r \<in> set rs. r_id r = fr_radarId row
            \<and> fr_label row = Some (r_name r)) (fv_radars (c_values ?c'))"
      unfolding sel by (rule labels)
    show "filter (\<lambda>k. arrayIndex k = None) (map fr_radarId (fv_radars (c_values ?c')))
            = filter (\<lambda>k. arrayIndex k = None) (firstSeen (map ir_id ?W))"
      unfolding sel ids using ownKeyOrder_shape [of "firstSeen (map ir_id ?W)"] by blast
    show "sorted (List.map_filter arrayIndex (map fr_radarId (fv_radars (c_values ?c'))))"
      unfolding sel ids using ownKeyOrder_shape [of "firstSeen (map ir_id ?W)"] by blast
    show "map fr_radarId (fv_radars (c_values ?c'))
            = filter (\<lambda>k. arrayIndex k \<noteq> None) (map fr_radarId (fv_radars (c_values ?c')))
              @ filter (\<lambda>k. arrayIndex k = None) (map fr_radarId (fv_radars (c_values ?c')))"
      unfolding sel ids using ownKeyOrder_shape [of "firstSeen (map ir_id ?W)"] by blast
    show "list_all (\<lambda>w. arrayIndex (ir_id w) = None) ?W
          \<longrightarrow> map fr_radarId (fv_radars (c_values ?c')) = firstSeen (map ir_id ?W)"
      unfolding sel using order by blast
  qed
qed

theorem C1_reconcile_rows_witness:
  "\<exists>c'. reconcileEffect (loaded scenarioCatalog scenarioItem) = Inr c'
     \<and> fv_radars (c_values c')
         = [\<lparr>fr_radarId = ''r1'', fr_label = Some ''Radar One'',
              fr_quadrants = [\<lparr>si_id = ''q1'', si_label = ''q1''\<rparr>,
                              \<lparr>si_id = ''q2'', si_label = ''q2''\<rparr>]\<rparr>,
            \<lparr>fr_radarId = ''r2'', fr_label = Some ''Radar Two'',
              fr_quadrants = [\<lparr>si_id = ''q3'', si_label = ''q3''\<rparr>]\<rparr>]"
proof -
  have h1: "c_radars (loaded scenarioCatalog scenarioItem) = Some scenarioCatalog"
    and h2: "c_item (loaded scenarioCatalog scenarioItem) = Some scenarioItem"
    by (simp_all add: loaded_def)
  from C1_reconcile_rows [OF h1 h2 scenario_not_inherited scenario_in_catalog]
  obtain c' where "reconcileEffect (loaded scenarioCatalog scenarioItem) = Inr c'"
    and "fv_radars (c_values c')
         = map (associationRow scenarioCatalog (ri_radars scenarioItem))
             (ownKeyOrder (firstSeen (map ir_id (ri_radars scenarioItem))))"
    by blast
  then show ?thesis
    by (simp only: scenario_key_order scenario_rows) blast
qed

text \<open>
  The claim as it was stated fails on numbered radars: for the wire list
  \<^verbatim>\<open>[{id: "2", quadrant: "a"}, {id: "1", quadrant: "b"}]\<close> the rows are those of \<^verbatim>\<open>"1"\<close>
  and \<^verbatim>\<open>"2"\<close> in this order, and the order of first appearance is \<^verbatim>\<open>"2"\<close>, \<^verbatim>\<open>"1"\<close>. For a
  wire list with the radar id \<^verbatim>\<open>"constructor"\<close> the effect raises and writes no row.
\<close>

theorem C1_first_appearance_counterexample:
  "reconcileEffect (loaded numberedCatalog numberedItem)
     = Inr ((loaded numberedCatalog numberedItem)
         \<lparr>c_itemRadars := [(''2'', \<lparr>ire_quadrants = [''a'']\<rparr>), (''1'', \<lparr>ire_quadrants = [''b'']\<rparr>)],
          c_values :=
            \<lparr>fv_id = Some ''i2'', fv_probation_result = Some Absent, fv_name = ''Item'',
             fv_description = ''text'', fv_ring = \<lparr>si_id = ''adopt'', si_label = ''adopt''\<rparr>,
             fv_ru = False, fv_ftt_matches = False,
             fv_radars =
               [\<lparr>fr_radarId = ''1'', fr_label = Some ''One'',
                  fr_quadrants = [\<lparr>si_id = ''b'', si_label = ''b''\<rparr>]\<rparr>,
                \<lparr>fr_radarId = ''2'', fr_label = Some ''Two'',
                  fr_quadrants = [\<lparr>si_id = ''a'', si_label = ''a''\<rparr>]\<rparr>]\<rparr>\<rparr>)
   \<and> firstSeen (map ir_id (ri_radars numberedItem)) = [''2'', ''1'']
   \<and> reconcileEffect (loaded constructorCatalog constructorItem) = Inl (TypeError ''push'')"
proof (intro conjI)
  show "firstSeen (map ir_id (ri_radars numberedItem)) = [''2'', ''1'']"
    by (simp add: numberedItem_def)
  show "reconcileEffect (loaded constructorCatalog constructorItem) = Inl (TypeError ''push'')"
    by (simp add: reconcileEffect_def loaded_def reconcile_def constructor_grouping)
  show "reconcileEffect (loaded numberedCatalog numberedItem) = Inr ((loaded numberedCatalog numberedItem)
         \<lparr>c_itemRadars := [(''2'', \<lparr>ire_quadrants = [''a'']\<rparr>), (''1'', \<lparr>ire_quadrants = [''b'']\<rparr>)],
          c_values :=
            \<lparr>fv_id = Some ''i2'', fv_probation_result = Some Absent, fv_name = ''Item'',
             fv_description = ''text'', fv_ring = \<lparr>si_id = ''adopt'', si_label = ''adopt''\<rparr>,
             fv_ru = False, fv_ftt_matches = False,
             fv_radars =
               [\<lparr>fr_radarId = ''1'', fr_label = Some ''One'',
                  fr_quadrants = [\<lparr>si_id = ''b'', si_label = ''b''\<rparr>]\<rparr>,
                \<lparr>fr_radarId = ''2'', fr_label = Some ''Two'',
                  fr_quadrants = [\<lparr>si_id = ''a'', si_label = ''a''\<rparr>]\<rparr>]\<rparr>\<rparr>)"
    by (simp add: reconcileEffect_def loaded_def reconcile_def numbered_grouping numbered_rows)
       (simp add: numberedItem_def formatSelectItem_def formatProbationResult_def)
qed

text \<open>
  Claim C2, amended. For every flat wire list \<open>W\<close> none of whose radar ids is the name of
  a property that an object literal inherits, and every catalog that contains all radar
  ids of \<open>W\<close>: grouping \<open>W\<close> into the form rows and flattening the rows back gives a list
  with the same multiset of pairs as \<open>W\<close>. The list is \<open>W\<close> rearranged into contiguous
  groups per radar id, the groups in the order of \<^verbatim>\<open>Object.keys\<close>: array-index ids
  ascending, then the other ids in order of first appearance; when no radar id is an array
  index, the groups are in order of first appearance.
\<close>

theorem C2_group_flatten_multiset:
  assumes "list_all (\<lambda>w. ir_id w \<notin> set inheritedKeys) (ri_radars it)"
    and "set (map ir_id (ri_radars it)) \<subseteq> set (map r_id rs)"
  shows "loadThenSubmit rs it
           = Inr (groupsOf (ownKeyOrder (firstSeen (map ir_id (ri_radars it)))) (ri_radars it))
         \<and> mset (groupsOf (ownKeyOrder (firstSeen (map ir_id (ri_radars it)))) (ri_radars it))
             = mset (ri_radars it)
         \<and> (list_all (\<lambda>w. arrayIndex (ir_id w) = None) (ri_radars it)
              \<longrightarrow> loadThenSubmit rs it
                    = Inr (groupsOf (firstSeen (map ir_id (ri_radars it))) (ri_radars it)))"
proof -
  let ?W = "ri_radars it"
  let ?ks = "ownKeyOrder (firstSeen (map ir_id ?W))"
  have load: "loadThenSubmit rs it = Inr (groupsOf ?ks ?W)"
    by (simp add: loadThenSubmit_def reconcile_catalog [OF assms] transformItemFormData_def
        flattenRadars_associationRows groupsOf_def)
  have "distinct ?ks" "set (map ir_id ?W) \<subseteq> set ?ks"
    by (simp_all add: distinct_ownKeyOrder distinct_firstSeen set_ownKeyOrder set_firstSeen)
  then have ms: "mset (groupsOf ?ks ?W) = mset ?W"
    unfolding groupsOf_def by (rule mset_groups)
  have "?ks = firstSeen (map ir_id ?W)"
    if "list_all (\<lambda>w. arrayIndex (ir_id w) = None) ?W"
  proof (rule ownKeyOrder_no_index)
    from that show "list_all (\<lambda>k. arrayIndex k = None) (firstSeen (map ir_id ?W))"
      by (auto simp: list_all_iff set_firstSeen)
  qed
  with load ms show ?thesis
    by (intro conjI impI) simp_all
qed

theorem C2_group_flatten_multiset_witness:
  "loadThenSubmit scenarioCatalog scenarioItem
     = Inr [\<lparr>ir_id = ''r1'', ir_quadrant = ''q1''\<rparr>, \<lparr>ir_id = ''r1'', ir_quadrant = ''q2''\<rparr>,
            \<lparr>ir_id = ''r2'', ir_quadrant = ''q3''\<rparr>]
   \<and> mset [\<lparr>ir_id = ''r1'', ir_quadrant = ''q1''\<rparr>, \<lparr>ir_id = ''r1'', ir_quadrant = ''q2''\<rparr>,
            \<lparr>ir_id = ''r2'', ir_quadrant = ''q3''\<rparr>] = mset (ri_radars scenarioItem)"
proof -
  have g: "groupsOf [''r1'', ''r2''] (ri_radars scenarioItem)
      = [\<lparr>ir_id = ''r1'', ir_quadrant = ''q1''\<rparr>, \<lparr>ir_id = ''r1'', ir_quadrant = ''q2''\<rparr>,
         \<lparr>ir_id = ''r2'', ir_quadrant = ''q3''\<rparr>]"
    by (simp add: groupsOf_def scenarioItem_def)
  from C2_group_flatten_multiset [OF scenario_not_inherited scenario_in_catalog]
  show ?thesis
    by (simp only: scenario_key_order g)
qed

text \<open>
  The order clause of the claim as it was stated fails: the wire list
  \<^verbatim>\<open>[{id: "2", quadrant: "a"}, {id: "1", quadrant: "b"}]\<close> has no duplicate radar id, so
  making groups contiguous leaves it as it is, and the round trip returns the two pairs
  in the other order. With the radar id \<^verbatim>\<open>"constructor"\<close> the grouping raises and there
  is no list at all.
\<close>

theorem C2_order_counterexample:
  "loadThenSubmit numberedCatalog numberedItem
     = Inr [\<lparr>ir_id = ''1'', ir_quadrant = ''b''\<rparr>, \<lparr>ir_id = ''2'', ir_quadrant = ''a''\<rparr>]
   \<and> ri_radars numberedItem
       = [\<lparr>ir_id = ''2'', ir_quadrant = ''a''\<rparr>, \<lparr>ir_id = ''1'', ir_quadrant = ''b''\<rparr>]
   \<and> groupsOf (firstSeen (map ir_id (ri_radars numberedItem))) (ri_radars numberedItem)
       = [\<lparr>ir_id = ''2'', ir_quadrant = ''a''\<rparr>, \<lparr>ir_id = ''1'', ir_quadrant = ''b''\<rparr>]
   \<and> loadThenSubmit constructorCatalog constructorItem = Inl (TypeError ''push'')"
  by (simp add: loadThenSubmit_def reconcile_def numbered_grouping numbered_rows
      constructor_grouping transformItemFormData_def flattenRadars_def flattenRadar_def)
     (simp add: numberedItem_def groupsOf_def)




text \<open>
  Claim C4. A form association row with no selected quadrant contributes no wire pair:
  its flattening is the empty list (an ordinary value, not an error and not a marker),
  and the flattened list of a form with such a row is the flattened list of the form
  without the row, so in the payload deselecting every quadrant of a row and removing
  the row are the same.
\<close>

theorem C4_no_quadrants_no_pairs:
  assumes "fr_quadrants row = []"
  shows "flattenRadar row = []
         \<and> flattenRadars (before @ row # after) = flattenRadars (before @ after)
         \<and> p_radars (transformItemFormData (v\<lparr>fv_radars := before @ row # after\<rparr>))
             = p_radars (transformItemFormData (v\<lparr>fv_radars := before @ after\<rparr>))"
  using assms by (simp add: flattenRadar_def flattenRadars_def transformItemFormData_def)

theorem C4_no_quadrants_no_pairs_witness:
  "flattenRadars
     [\<lparr>fr_radarId = ''r1'', fr_label = Some ''Radar One'',
        fr_quadrants = [\<lparr>si_id = ''q1'', si_label = ''q1''\<rparr>]\<rparr>,
      \<lparr>fr_radarId = ''r2'', fr_label = Some ''Radar Two'', fr_quadrants = []\<rparr>]
   = [\<lparr>ir_id = ''r1'', ir_quadrant = ''q1''\<rparr>]
   \<and> flattenRadars
     [\<lparr>fr_radarId = ''r1'', fr_label = Some ''Radar One'',
        fr_quadrants = [\<lparr>si_id = ''q1'', si_label = ''q1''\<rparr>]\<rparr>]
   = [\<lparr>ir_id = ''r1'', ir_quadrant = ''q1''\<rparr>]"
  using C4_no_quadrants_no_pairs [of
      "\<lparr>fr_radarId = ''r2'', fr_label = Some ''Radar Two'', fr_quadrants = []\<rparr>"
      "[\<lparr>fr_radarId = ''r1'', fr_label = Some ''Radar One'',
          fr_quadrants = [\<lparr>si_id = ''q1'', si_label = ''q1''\<rparr>]\<rparr>]" "[]" exampleDefaults]
  by (simp add: flattenRadars_def flattenRadar_def)




text \<open>
  Claim C6. When every radar id of the item's wire list is in the catalog, the label
  lookup of the effect never reads a missing entry: for every key of the
  \<^verbatim>\<open>ItemRadarsMap\<close>, \<^verbatim>\<open>radarsMap[radarId]\<close> is a radar of the catalog with that id and
  \<^verbatim>\<open>.name\<close> is its name, and the effect does not raise the exception of reading
  \<^verbatim>\<open>name\<close> on \<^verbatim>\<open>undefined\<close>. There is no fallback: when the grouping completes and a
  radar id of the wire list is not in the catalog (and no catalog radar has the id
  \<^verbatim>\<open>__proto__\<close>, which would change what the catalog map inherits), the effect raises
  that exception.
\<close>

theorem C6_label_lookup_defined:
  "(set (map ir_id (ri_radars it)) \<subseteq> set (map r_id rs) \<longrightarrow>
      reconcile rs it \<noteq> Inl (TypeError ''name'')
      \<and> (\<forall>m k. itemRadarsMapReduce (ri_radars it) [] = Inr m \<and> k \<in> set (objectKeys m) \<longrightarrow>
            (\<exists>r \<in> set rs. r_id r = k
               \<and> radarsMapGet (radarsMapReduce rs) k = RadarValue r
               \<and> nameOf (radarsMapGet (radarsMapReduce rs) k) = Inr (Some (r_name r)))))
   \<and> (\<not> set (map ir_id (ri_radars it)) \<subseteq> set (map r_id rs)
       \<and> list_all (\<lambda>w. ir_id w \<notin> set inheritedKeys) (ri_radars it)
       \<and> ''__proto__'' \<notin> set (map r_id rs) \<longrightarrow>
      reconcile rs it = Inl (TypeError ''name''))"
proof (intro conjI impI allI)
  let ?W = "ri_radars it"
  assume cat: "set (map ir_id ?W) \<subseteq> set (map r_id rs)"
  show "reconcile rs it \<noteq> Inl (TypeError ''name'')"
  proof (cases "list_all (\<lambda>w. ir_id w \<notin> set inheritedKeys) ?W")
    case True
    then show ?thesis
      by (simp add: reconcile_catalog [OF True cat])
  next
    case False
    then show ?thesis
      by (simp add: reconcile_def itemRadarsMapReduce_inherited)
  qed
  fix m k
  assume mk: "itemRadarsMapReduce ?W [] = Inr m \<and> k \<in> set (objectKeys m)"
  with grouping_cases [of ?W] have noinh: "list_all (\<lambda>w. ir_id w \<notin> set inheritedKeys) ?W"
    and m: "m = groupByRadar ?W"
    by auto
  from mk m have k: "k \<in> set (map ir_id ?W)"
    by (simp add: objectKeys_groupByRadar set_ownKeyOrder set_firstSeen)
  with noinh have "k \<notin> set inheritedKeys"
    by (auto simp: list_all_iff)
  then have "k \<noteq> ''__proto__''"
    using proto_inherited by auto
  moreover from k cat have "k \<in> set (map r_id rs)" by auto
  ultimately obtain r where "r \<in> set rs" "r_id r = k"
    "radarsMapGet (radarsMapReduce rs) k = RadarValue r"
    using radarsMapGet_catalog by blast
  then show "\<exists>r \<in> set rs. r_id r = k
               \<and> radarsMapGet (radarsMapReduce rs) k = RadarValue r
               \<and> nameOf (radarsMapGet (radarsMapReduce rs) k) = Inr (Some (r_name r))"
    by (auto simp: nameOf_def)
next
  let ?W = "ri_radars it"
  let ?f = "formattedItemRadar (radarsMapReduce rs) (groupByRadar ?W)"
  assume a: "\<not> set (map ir_id ?W) \<subseteq> set (map r_id rs)
       \<and> list_all (\<lambda>w. ir_id w \<notin> set inheritedKeys) ?W
       \<and> ''__proto__'' \<notin> set (map r_id rs)"
  then have noinh: "list_all (\<lambda>w. ir_id w \<notin> set inheritedKeys) ?W"
    and noproto: "''__proto__'' \<notin> set (map r_id rs)"
    by simp_all
  have keys: "set (objectKeys (groupByRadar ?W)) = set (map ir_id ?W)"
    by (simp add: objectKeys_groupByRadar set_ownKeyOrder set_firstSeen)
  have each: "?f k = Inl (TypeError ''name'') \<or> (\<exists>y. ?f k = Inr y)"
    if "k \<in> set (objectKeys (groupByRadar ?W))" for k
  proof (cases "k \<in> set (map r_id rs)")
    case True
    from that keys have kW: "k \<in> set (map ir_id ?W)" by simp
    with noinh have "k \<notin> set inheritedKeys" by (auto simp: list_all_iff)
    with kW True show ?thesis
      by (simp add: formattedItemRadar_catalog)
  next
    case False
    from that keys noinh have "k \<notin> set inheritedKeys" by (auto simp: list_all_iff)
    with False noproto show ?thesis
      by (simp add: formattedItemRadar_missing)
  qed
  from a obtain k where kW: "k \<in> set (map ir_id ?W)" and kc: "k \<notin> set (map r_id rs)"
    by auto
  from kW noinh have "k \<notin> set inheritedKeys" by (auto simp: list_all_iff)
  with kc noproto have "?f k = Inl (TypeError ''name'')"
    by (simp add: formattedItemRadar_missing)
  with kW keys have "\<exists>k \<in> set (objectKeys (groupByRadar ?W)). ?f k = Inl (TypeError ''name'')"
    by auto
  then have "mapRaising ?f (objectKeys (groupByRadar ?W)) = Inl (TypeError ''name'')"
    using each by (rule mapRaising_Inl)
  then show "reconcile rs it = Inl (TypeError ''name'')"
    by (simp add: reconcile_def itemRadarsMapReduce_groupByRadar [OF noinh] formattedItemRadars_def)
qed

theorem C6_label_lookup_defined_witness:
  "reconcile scenarioCatalog scenarioItem \<noteq> Inl (TypeError ''name'')
   \<and> (\<exists>r \<in> set scenarioCatalog. r_id r = ''r2''
         \<and> radarsMapGet (radarsMapReduce scenarioCatalog) ''r2'' = RadarValue r
         \<and> nameOf (radarsMapGet (radarsMapReduce scenarioCatalog) ''r2'') = Inr (Some (r_name r)))
   \<and> reconcile [radarOne] scenarioItem = Inl (TypeError ''name'')"
proof -
  have m: "itemRadarsMapReduce (ri_radars scenarioItem) [] = Inr (groupByRadar (ri_radars scenarioItem))"
    by (rule itemRadarsMapReduce_groupByRadar [OF scenario_not_inherited])
  have k: "''r2'' \<in> set (objectKeys (groupByRadar (ri_radars scenarioItem)))"
    by (simp add: objectKeys_groupByRadar scenario_key_order)
  have missing: "\<not> set (map ir_id (ri_radars scenarioItem)) \<subseteq> set (map r_id [radarOne])"
    by (simp add: scenarioItem_def scenarioCatalog_def)
  have noproto: "''__proto__'' \<notin> set (map r_id [radarOne])"
    by (simp add: scenarioCatalog_def)
  from C6_label_lookup_defined [of scenarioItem scenarioCatalog] scenario_in_catalog m k
    C6_label_lookup_defined [of scenarioItem "[radarOne]"] missing noproto
    scenario_not_inherited
  show ?thesis
    by blast
qed

text \<open>
  Claim C7. A submission makes exactly one service call: \<^verbatim>\<open>updateRadarItem\<close> with the
  item id and the transformed data when \<^verbatim>\<open>itemId\<close> is present (truthy, the test
  \<^verbatim>\<open>if (itemId)\<close> of the code), \<^verbatim>\<open>createRadarItem\<close> with the id of the radar and the
  transformed data otherwise. When the call resolves, the only other effect is
  \<^verbatim>\<open>addSnackbar\<close> with status success. When the call rejects, the error is logged with
  \<^verbatim>\<open>console.error\<close> and \<^verbatim>\<open>addSnackbar\<close> is called with the generic failure message and
  status alert; the service is not called again and no success is reported.
\<close>

theorem C7_formSubmit:
  "(truthy (pr_itemId p) \<longrightarrow>
      filter isService (formSubmit p service v)
        = [Service (UpdateRadarItem (the (pr_itemId p)) (transformItemFormData v))]
      \<and> (service (UpdateRadarItem (the (pr_itemId p)) (transformItemFormData v)) = None \<longrightarrow>
           formSubmit p service v
             = [Service (UpdateRadarItem (the (pr_itemId p)) (transformItemFormData v)),
                AddSnackbar ItemUpdated Success])
      \<and> (service (UpdateRadarItem (the (pr_itemId p)) (transformItemFormData v)) = Some e \<longrightarrow>
           formSubmit p service v
             = [Service (UpdateRadarItem (the (pr_itemId p)) (transformItemFormData v)),
                ConsoleError e, AddSnackbar ErrorOccurred Alert]))
   \<and> (\<not> truthy (pr_itemId p) \<longrightarrow>
      filter isService (formSubmit p service v)
        = [Service (CreateRadarItem (r_id (pr_radar p)) (transformItemFormData v))]
      \<and> (service (CreateRadarItem (r_id (pr_radar p)) (transformItemFormData v)) = None \<longrightarrow>
           formSubmit p service v
             = [Service (CreateRadarItem (r_id (pr_radar p)) (transformItemFormData v)),
                AddSnackbar ItemCreated Success])
      \<and> (service (CreateRadarItem (r_id (pr_radar p)) (transformItemFormData v)) = Some e \<longrightarrow>
           formSubmit p service v
             = [Service (CreateRadarItem (r_id (pr_radar p)) (transformItemFormData v)),
                ConsoleError e, AddSnackbar ErrorOccurred Alert]))"
proof -
  have submit: "formSubmit p service v =
      (case service call of
         None \<Rightarrow> [Service call, AddSnackbar ok Success]
       | Some err \<Rightarrow> [Service call, ConsoleError err, AddSnackbar ErrorOccurred Alert])"
    if "tryBlock p service (transformItemFormData v) =
      (case service call of
         None \<Rightarrow> ([Service call, AddSnackbar ok Success], None)
       | Some err \<Rightarrow> ([Service call], Some err))" for call ok
    using that by (simp add: formSubmit_def split: option.splits)
  have one: "filter isService (formSubmit p service v) = [Service call]"
    if "formSubmit p service v =
      (case service call of
         None \<Rightarrow> [Service call, AddSnackbar ok Success]
       | Some err \<Rightarrow> [Service call, ConsoleError err, AddSnackbar ErrorOccurred Alert])"
    for call ok
    using that by (simp add: isService_def split: option.splits)
  show ?thesis
  proof (cases "truthy (pr_itemId p)")
    case True
    let ?call = "UpdateRadarItem (the (pr_itemId p)) (transformItemFormData v)"
    from True have "tryBlock p service (transformItemFormData v) =
      (case service ?call of
         None \<Rightarrow> ([Service ?call, AddSnackbar ItemUpdated Success], None)
       | Some err \<Rightarrow> ([Service ?call], Some err))"
      by (simp add: tryBlock_def split: option.splits)
    from submit [OF this] one [OF submit [OF this]] True show ?thesis
      by simp
  next
    case False
    let ?call = "CreateRadarItem (r_id (pr_radar p)) (transformItemFormData v)"
    from False have "tryBlock p service (transformItemFormData v) =
      (case service ?call of
         None \<Rightarrow> ([Service ?call, AddSnackbar ItemCreated Success], None)
       | Some err \<Rightarrow> ([Service ?call], Some err))"
      by (simp add: tryBlock_def split: option.splits)
    from submit [OF this] one [OF submit [OF this]] False show ?thesis
      by simp
  qed
qed

theorem C7_formSubmit_witness:
  "formSubmit editProps (\<lambda>call. None :: string option) exampleDefaults
     = [Service (UpdateRadarItem ''i1'' (transformItemFormData exampleDefaults)),
        AddSnackbar ItemUpdated Success]
   \<and> formSubmit createProps (\<lambda>call. Some ''503'') exampleDefaults
     = [Service (CreateRadarItem ''r1'' (transformItemFormData exampleDefaults)),
        ConsoleError ''503'', AddSnackbar ErrorOccurred Alert]"
proof -
  have e: "truthy (pr_itemId editProps)" "the (pr_itemId editProps) = ''i1''"
    by (simp_all add: editProps_def truthy_def)
  have c: "\<not> truthy (pr_itemId createProps)" "r_id (pr_radar createProps) = ''r1''"
    by (simp_all add: createProps_def truthy_def scenarioCatalog_def)
  from C7_formSubmit [of editProps "\<lambda>call. None :: string option" exampleDefaults] e
    C7_formSubmit [of createProps "\<lambda>call. Some ''503''" exampleDefaults "''503''"] c
  show ?thesis
    by simp
qed

text \<open>
  Claim C8. While the catalog or the item is absent the effect leaves the state as it is.
  Running the effect again on the state it produced gives that state again, and the form
  values and the \<^verbatim>\<open>itemRadars\<close> map it produces depend only on the fetched catalog and
  item, not on what the form held before.
\<close>

theorem C8_effect_gated_idempotent:
  "(c_radars c = None \<or> c_item c = None \<longrightarrow> reconcileEffect c = Inr c)
   \<and> (reconcileEffect c = Inr c' \<longrightarrow> reconcileEffect c' = Inr c')
   \<and> (c_radars d = c_radars c \<and> c_item d = c_item c \<and> c_radars c \<noteq> None \<and> c_item c \<noteq> None
        \<and> reconcileEffect c = Inr c' \<and> reconcileEffect d = Inr d'
        \<longrightarrow> c_values d' = c_values c' \<and> c_itemRadars d' = c_itemRadars c')"
proof (intro conjI impI)
  assume "c_radars c = None \<or> c_item c = None"
  then show "reconcileEffect c = Inr c"
    by (auto simp: reconcileEffect_def split: option.splits)
next
  assume "reconcileEffect c = Inr c'"
  then show "reconcileEffect c' = Inr c'"
    by (auto simp: reconcileEffect_def split: option.splits sum.splits)
next
  assume a: "c_radars d = c_radars c \<and> c_item d = c_item c \<and> c_radars c \<noteq> None \<and> c_item c \<noteq> None
        \<and> reconcileEffect c = Inr c' \<and> reconcileEffect d = Inr d'"
  then show "c_values d' = c_values c'"
    by (auto simp: reconcileEffect_def split: option.splits sum.splits)
  from a show "c_itemRadars d' = c_itemRadars c'"
    by (auto simp: reconcileEffect_def split: option.splits sum.splits)
qed

theorem C8_effect_gated_idempotent_witness:
  "reconcileEffect (catalogOnly scenarioCatalog) = Inr (catalogOnly scenarioCatalog)
   \<and> (\<exists>c' d'. reconcileEffect (loaded scenarioCatalog scenarioItem) = Inr c'
         \<and> reconcileEffect c' = Inr c'
         \<and> reconcileEffect (clickAdd (loaded scenarioCatalog scenarioItem)) = Inr d'
         \<and> c_values d' = c_values c' \<and> c_itemRadars d' = c_itemRadars c')"
proof -
  let ?c = "loaded scenarioCatalog scenarioItem"
  have g: "c_item (catalogOnly scenarioCatalog) = None"
    by (simp add: catalogOnly_def mounted_def)
  have c: "c_radars ?c = Some scenarioCatalog" "c_item ?c = Some scenarioItem"
    by (simp_all add: loaded_def)
  have d: "c_radars (clickAdd ?c) = Some scenarioCatalog" "c_item (clickAdd ?c) = Some scenarioItem"
    by (simp_all add: loaded_def clickAdd_def)
  from scenario_effect [OF c] obtain c' where c': "reconcileEffect ?c = Inr c'" ..
  from scenario_effect [OF d] obtain d' where d': "reconcileEffect (clickAdd ?c) = Inr d'" ..
  from C8_effect_gated_idempotent [of "catalogOnly scenarioCatalog"] g
    C8_effect_gated_idempotent [of ?c c' "clickAdd ?c" d'] c d c' d'
  show ?thesis
    by auto
qed

text \<open>
  Claim C9. For every list of strings \<open>xs\<close>, unwrapping the wrapped list gives \<open>xs\<close> back;
  both transforms keep the length and the element at every position, whatever the length
  is (no bound appears in them); the bound of four entries is the append buttons' guard:
  a click on the append button of a list of four or more entries changes nothing, and a
  click on a shorter list adds one empty entry.
\<close>

theorem C9_fields_roundtrip:
  "formatFieldsToArray (formatFieldsToObjects xs) = xs
   \<and> length (formatFieldsToObjects xs) = length xs
   \<and> length (formatFieldsToArray fs) = length fs
   \<and> (\<forall>i < length xs. ff_value (formatFieldsToObjects xs ! i) = xs ! i)
   \<and> (\<forall>i < length fs. formatFieldsToArray fs ! i = ff_value (fs ! i))
   \<and> (length fs \<ge> 4 \<longrightarrow> clickAppendRing fs = fs \<and> clickAppendQuadrant fs = fs)
   \<and> (length fs < 4 \<longrightarrow> length (clickAppendRing fs) = length fs + 1
                       \<and> length (clickAppendQuadrant fs) = length fs + 1)"
  by (simp add: formatFieldsToArray_Objects)
     (simp add: formatFieldsToArray_def formatFieldsToObjects_def clickAppendRing_def
        clickAppendQuadrant_def ringAppendDisabled_def quadrantAppendDisabled_def
        MAX_RINGS_def MAX_QUADRANTS_def)

theorem C9_fields_roundtrip_witness:
  "formatFieldsToArray (formatFieldsToObjects [''a'', ''b'', ''c'', ''d'', ''e''])
     = [''a'', ''b'', ''c'', ''d'', ''e'']
   \<and> length (formatFieldsToObjects [''a'', ''b'', ''c'', ''d'', ''e'']) = 5
   \<and> ff_value (formatFieldsToObjects [''a'', ''b'', ''c'', ''d'', ''e''] ! 4) = ''e''
   \<and> clickAppendRing (formatFieldsToObjects [''a'', ''b'', ''c'', ''d''])
       = formatFieldsToObjects [''a'', ''b'', ''c'', ''d'']
   \<and> length (clickAppendQuadrant (formatFieldsToObjects [''a''])) = 2"
  using C9_fields_roundtrip [of "[''a'', ''b'', ''c'', ''d'', ''e'']"
      "formatFieldsToObjects [''a'', ''b'', ''c'', ''d'']"]
    C9_fields_roundtrip [of "[''a'', ''b'', ''c'', ''d'', ''e'']"
      "formatFieldsToObjects [''a'']"]
  by (simp add: formatFieldsToObjects_def)

text \<open>
  Claim C10. With exactly one association row no remove button is rendered, and a click
  on a remove button that is not rendered changes nothing. A rendered remove button
  implies at least two rows, and its click removes one row; so the remove action never
  takes the rows from one to none.
\<close>

theorem C10_last_row_has_no_remove:
  "(length (fv_radars (c_values c)) = 1 \<longrightarrow> \<not> removeRendered c i \<and> clickRemove i c = c)
   \<and> (removeRendered c i \<longrightarrow>
        length (fv_radars (c_values c)) \<ge> 2
        \<and> length (fv_radars (c_values (clickRemove i c))) = length (fv_radars (c_values c)) - 1)
   \<and> (length (fv_radars (c_values c)) \<ge> 1 \<longrightarrow> length (fv_radars (c_values (clickRemove i c))) \<ge> 1)"
proof (intro conjI impI)
  assume "length (fv_radars (c_values c)) = 1"
  then show no: "\<not> removeRendered c i"
    by (simp add: removeRendered_def)
  then show "clickRemove i c = c"
    by (simp add: clickRemove_def)
next
  assume r: "removeRendered c i"
  then show "length (fv_radars (c_values c)) \<ge> 2"
    by (simp add: removeRendered_def)
  from r have "i < length (fv_radars (c_values c))"
    by (simp add: removeRendered_def rowRendered_def)
  with r show "length (fv_radars (c_values (clickRemove i c))) = length (fv_radars (c_values c)) - 1"
    by (simp add: clickRemove_def)
next
  assume some: "length (fv_radars (c_values c)) \<ge> 1"
  show "length (fv_radars (c_values (clickRemove i c))) \<ge> 1"
  proof (cases "removeRendered c i")
    case True
    then have "i < length (fv_radars (c_values c))" "length (fv_radars (c_values c)) > 1"
      by (simp_all add: removeRendered_def rowRendered_def)
    with True show ?thesis
      by (simp add: clickRemove_def)
  next
    case False
    with some show ?thesis
      by (simp add: clickRemove_def)
  qed
qed

theorem C10_last_row_has_no_remove_witness:
  "\<not> removeRendered (catalogOnly scenarioCatalog) 0
   \<and> clickRemove 0 (catalogOnly scenarioCatalog) = catalogOnly scenarioCatalog
   \<and> removeRendered (clickAdd (catalogOnly scenarioCatalog)) 1
   \<and> length (fv_radars (c_values (clickRemove 1 (clickAdd (catalogOnly scenarioCatalog))))) = 1"
proof -
  have one: "length (fv_radars (c_values (catalogOnly scenarioCatalog))) = 1"
    by (simp add: catalogOnly_def mounted_def exampleDefaults_def)
  have two: "length (fv_radars (c_values (clickAdd (catalogOnly scenarioCatalog)))) = 2"
    by (simp add: clickAdd_def addDisabled_def catalogOnly_def mounted_def exampleDefaults_def
        scenarioCatalog_def)
  have rendered: "removeRendered (clickAdd (catalogOnly scenarioCatalog)) 1"
    by (simp add: removeRendered_def rowRendered_def two)
       (simp add: clickAdd_def catalogOnly_def)
  from C10_last_row_has_no_remove [of "catalogOnly scenarioCatalog" 0] one
    C10_last_row_has_no_remove [of "clickAdd (catalogOnly scenarioCatalog)" 1] two rendered
  show ?thesis
    by simp
qed

end
